theory Spec2Isabelle
  imports Complex_Main "HOL-Library.Multiset"
begin

section \<open>Tensors, errors and the external collaborators\<close>

text \<open>
  Tensors are nested lists of reals: the arithmetic of the networks is modelled over the
  real numbers, so rounding and overflow of the floats are not part of the model. One
  floating-point effect is modelled, because the masking of unavailable actions relies on
  it: in the policy's softmax the exponential of a very negative number is exactly 0.
  A Python exception is a value of type \<open>error\<close>; a method that can raise
  returns \<open>error + 'a\<close>, and a method that writes a field of the controller returns the
  controller with it. Shape errors of the tensor library are not modelled: where a
  theorem needs well-shaped tensors, the shapes are among its hypotheses.
\<close>

datatype error =
    AssertionError | KeyError | IndexError | ZeroDivisionError | RuntimeError
  | AttributeError | FileNotFoundError | NotImplementedException

type_synonym task = string
type_synonym vec = "real list"
type_synonym mat = "real list list"
type_synonym tensor3 = "real list list list"
type_synonym tensor4 = "real list list list list"

text \<open>The weights of a network (its \<open>state_dict\<close>), flattened.\<close>
type_synonym state_dict = "real list"

text \<open>The checkpoint directory: file name to the saved weights.\<close>
type_synonym files = "string \<rightharpoonup> state_dict"

record task_args =
  n_agents :: nat
  obs_last_action :: bool
  obs_agent_id :: bool

text \<open>
  The fields of \<open>XTransMAC\<close>. \<open>mask_before_softmax\<close> is read with
  \<open>getattr(main_args, "mask_before_softmax", True)\<close>: \<open>None\<close> is the absent attribute.
  \<open>epsilon\<close> is \<open>action_selector.epsilon\<close>. \<open>hidden_states\<close> is \<open>None\<close> until
  \<open>init_hidden\<close> or \<open>forward\<close> sets it.
\<close>

record controller =
  train_tasks :: "task list"
  task2args :: "task \<rightharpoonup> task_args"
  task2n_agents :: "task \<rightharpoonup> nat"
  agent_output_type :: string
  mask_before_softmax :: "bool option"
  epsilon :: real
  agent :: state_dict
  dynamic_encoder :: state_dict
  task2dynamic_decoder :: "task \<rightharpoonup> state_dict"
  hidden_states :: "tensor3 option"
  task2repre :: "task \<rightharpoonup> vec"

text \<open>
  An episode batch: \<open>obs\<close>, \<open>avail_actions\<close> and \<open>actions_onehot\<close> are indexed
  [batch][time][agent][feature], \<open>state\<close> is indexed [batch][time][feature].
\<close>

record ep_batch =
  batch_size :: nat
  obs :: tensor4
  state :: tensor3
  avail_actions :: "nat list list list list"
  actions_onehot :: tensor4

text \<open>
  The networks themselves are outside the two source files; they are parameters of the
  model, functions of their weights and inputs. The shared policy returns the agent
  outputs, one row per (batch element, agent), and the new hidden state.
\<close>

type_synonym agent_net =
  "state_dict \<Rightarrow> mat \<Rightarrow> tensor3 option \<Rightarrow> mat \<Rightarrow> task \<Rightarrow> mat \<times> tensor3"
type_synonym encoder_net =
  "state_dict \<Rightarrow> tensor3 \<Rightarrow> mat \<Rightarrow> tensor3 \<Rightarrow> task \<Rightarrow> mat \<Rightarrow> mat \<times> nat"
type_synonym decoder_net =
  "state_dict \<Rightarrow> mat \<Rightarrow> nat \<Rightarrow> mat \<times> mat \<times> mat"

text \<open>The matrix with \<open>n\<close> rows and \<open>k\<close> columns given by its entries.\<close>

definition tabulate2 :: "nat \<Rightarrow> nat \<Rightarrow> (nat \<Rightarrow> nat \<Rightarrow> real) \<Rightarrow> mat" where
  "tabulate2 n k f = map (\<lambda>i. map (\<lambda>j. f i j) [0..<k]) [0..<n]"

text \<open>The dot product of two vectors.\<close>

definition dot :: "vec \<Rightarrow> vec \<Rightarrow> real" where
  "dot xs ys = sum_list (map2 (*) xs ys)"

section \<open>The controller\<close>

subsection \<open>Task representations\<close>

text \<open>
  \<open>get_task_repres\<close>: the assertion comes first, then the two dictionary reads;
  \<open>unsqueeze(0).repeat(n, 1)\<close> is \<open>n\<close> copies of the stored vector.
\<close>

definition get_task_repres :: "controller \<Rightarrow> task \<Rightarrow> bool \<Rightarrow> error + mat" where
  "get_task_repres c task require_grad =
     (if require_grad then Inl AssertionError
      else case task2repre c task of
             None \<Rightarrow> Inl KeyError
           | Some r \<Rightarrow>
               (case task2n_agents c task of
                  None \<Rightarrow> Inl KeyError
                | Some n \<Rightarrow> Inr (replicate n r)))"

subsection \<open>Saving and loading\<close>

text \<open>
  The attributes of the controller that hold a network with a \<open>state_dict\<close>. Reading
  any other attribute name raises \<open>AttributeError\<close>.
\<close>

definition getattr_module :: "controller \<Rightarrow> string \<Rightarrow> error + state_dict" where
  "getattr_module c name =
     (if name = ''agent'' then Inr (agent c)
      else if name = ''dynamic_encoder'' then Inr (dynamic_encoder c)
      else Inl AttributeError)"

definition save_models :: "controller \<Rightarrow> string \<Rightarrow> files \<Rightarrow> files" where
  "save_models c path fs =
     (fs(path @ ''/agent.th'' \<mapsto> agent c))
       (path @ ''/dynamic_encoder.th'' \<mapsto> dynamic_encoder c)"

text \<open>
  \<open>load_models\<close>, statement by statement. The second statement reads the attribute
  \<open>dynmaic_encoder\<close> (as the source spells it) before it opens the file.
\<close>

definition load_models :: "controller \<Rightarrow> string \<Rightarrow> files \<Rightarrow> (error + unit) \<times> controller" where
  "load_models c path fs =
     (case fs (path @ ''/agent.th'') of
        None \<Rightarrow> (Inl FileNotFoundError, c)
      | Some w \<Rightarrow>
          (let c1 = c\<lparr>agent := w\<rparr> in
           case getattr_module c1 ''dynmaic_encoder'' of
             Inl e \<Rightarrow> (Inl e, c1)
           | Inr _ \<Rightarrow>
               (case fs (path @ ''/dynamic_encoder.th'') of
                  None \<Rightarrow> (Inl FileNotFoundError, c1)
                | Some w' \<Rightarrow> (Inr (), c1\<lparr>dynamic_encoder := w'\<rparr>))))"

text \<open>\<open>load_state\<close>, the sibling that copies both networks from another controller.\<close>

definition load_state :: "controller \<Rightarrow> controller \<Rightarrow> controller" where
  "load_state c other_mac = c\<lparr>agent := agent other_mac, dynamic_encoder := dynamic_encoder other_mac\<rparr>"

subsection \<open>Slicing a batch at a timestep\<close>

text \<open>\<open>x[:, t]\<close>: the entry at time \<open>t\<close> of every batch element.\<close>

definition slice_t :: "'a list list \<Rightarrow> nat \<Rightarrow> error + 'a list" where
  "slice_t x t =
     (if list_all (\<lambda>row. t < length row) x then Inr (map (\<lambda>row. row ! t) x)
      else Inl IndexError)"

subsection \<open>The dynamic encoder and decoder\<close>

text \<open>
  \<open>task_encoder_forward\<close>: three slices of the batch, the frozen task representation,
  the shared encoder and the task's decoder. Nothing is assigned to a field of the
  controller.
\<close>

definition task_encoder_forward ::
  "encoder_net \<Rightarrow> decoder_net \<Rightarrow> controller \<Rightarrow> ep_batch \<Rightarrow> nat \<Rightarrow> task
    \<Rightarrow> (error + mat \<times> mat \<times> mat) \<times> controller" where
  "task_encoder_forward enc dec c batch t task =
     (case slice_t (obs batch) t of Inl e \<Rightarrow> (Inl e, c) | Inr obs_t \<Rightarrow>
      case slice_t (state batch) t of Inl e \<Rightarrow> (Inl e, c) | Inr state_t \<Rightarrow>
      case slice_t (actions_onehot batch) t of Inl e \<Rightarrow> (Inl e, c) | Inr actions_t \<Rightarrow>
      case get_task_repres c task False of Inl e \<Rightarrow> (Inl e, c) | Inr task_repre \<Rightarrow>
      (let (encoded_latent, bs) = enc (dynamic_encoder c) obs_t state_t actions_t task task_repre
       in case task2dynamic_decoder c task of
            None \<Rightarrow> (Inl KeyError, c)
          | Some d \<Rightarrow> (Inr (dec d encoded_latent bs), c)))"

subsection \<open>Building the agents' inputs\<close>

definition eye :: "nat \<Rightarrow> mat" where
  "eye n = map (\<lambda>i. map (\<lambda>j. if i = j then 1 else 0) [0..<n]) [0..<n]"

definition zeros_like :: "tensor3 \<Rightarrow> tensor3" where
  "zeros_like x = map (map (map (\<lambda>_. 0))) x"

text \<open>\<open>th.cat(xs, dim=1)\<close> of matrices with the same number of rows.\<close>

fun cat_dim1 :: "mat list \<Rightarrow> mat" where
  "cat_dim1 [] = []"
| "cat_dim1 [x] = x"
| "cat_dim1 (x # xs) = map2 (@) x (cat_dim1 xs)"

text \<open>
  \<open>_build_inputs\<close>: the observation, then the previous action (zeros at the first
  step) and the agent's identity when the task asks for them; every part is reshaped to
  one row per (batch element, agent) and the rows are concatenated.
  \<open>reshape(bs * n_agents, -1)\<close> raises \<open>RuntimeError\<close> when \<open>bs * n_agents\<close> is 0.
\<close>

definition build_inputs :: "controller \<Rightarrow> ep_batch \<Rightarrow> nat \<Rightarrow> task \<Rightarrow> error + mat" where
  "build_inputs c batch t task =
     (let bs = batch_size batch in
      case slice_t (obs batch) t of Inl e \<Rightarrow> Inl e | Inr obs_t \<Rightarrow>
      case task2args c task of None \<Rightarrow> Inl KeyError | Some targs \<Rightarrow>
      case task2n_agents c task of None \<Rightarrow> Inl KeyError | Some n \<Rightarrow>
      case (if obs_last_action targs then
              (if t = 0 then
                 (case slice_t (actions_onehot batch) t of
                    Inl e \<Rightarrow> Inl e | Inr a \<Rightarrow> Inr [zeros_like a])
               else
                 (case slice_t (actions_onehot batch) (t - 1) of
                    Inl e \<Rightarrow> Inl e | Inr a \<Rightarrow> Inr [a]))
            else Inr []) of Inl e \<Rightarrow> Inl e | Inr last_action \<Rightarrow>
      (let agent_id = (if obs_agent_id targs then [replicate bs (eye n)] else []);
           inputs = [obs_t] @ last_action @ agent_id
       in if bs * n = 0 then Inl RuntimeError
          else Inr (cat_dim1 (map concat inputs))))"

subsection \<open>From logits to the returned distribution\<close>

text \<open>\<open>x[mask == 0] = v\<close>, entry by entry: one row, then the matrix.\<close>

definition fill_row :: "real \<Rightarrow> vec \<Rightarrow> nat list \<Rightarrow> vec" where
  "fill_row v xs av = map2 (\<lambda>e m. if m = 0 then v else e) xs av"

definition masked_fill :: "mat \<Rightarrow> nat list list \<Rightarrow> real \<Rightarrow> mat" where
  "masked_fill x msk v = map2 (fill_row v) x msk"

text \<open>
  \<open>softmax(x, dim=-1)\<close> on one row of logits, with the two features of the
  floating-point kernel that the masking relies on: the maximum of the row is subtracted
  before the exponential, and the exponential of the floating-point library is exactly 0
  far below zero (below -745.2 in double precision, already below -104 in single
  precision; the model takes -746, which is safe for both). Rounding is not modelled.
\<close>

definition exp_fl :: "real \<Rightarrow> real" where
  "exp_fl x = (if x < - 746 then 0 else exp x)"

fun row_max :: "vec \<Rightarrow> real" where
  "row_max [] = 0"
| "row_max [x] = x"
| "row_max (x # y # ys) = max x (row_max (y # ys))"

definition softmax_fl :: "vec \<Rightarrow> vec" where
  "softmax_fl xs =
     map (\<lambda>x. exp_fl (x - row_max xs) / sum_list (map (\<lambda>y. exp_fl (y - row_max xs)) xs)) xs"

text \<open>
  Lines 79 to 97 of \<open>forward\<close>, on the matrix of agent outputs (one row per batch
  element and agent) and the availability mask reshaped to the same rows. \<open>masking\<close> is the
  value of \<open>getattr(main_args, "mask_before_softmax", True)\<close>; \<open>eps\<close> is the action
  selector's epsilon. The number of actions \<open>epsilon_action_num\<close> is the size of the last
  axis without the mask, and the row sums of the mask with it.
\<close>

definition pi_logits_outputs :: "bool \<Rightarrow> real \<Rightarrow> bool \<Rightarrow> mat \<Rightarrow> nat list list \<Rightarrow> mat" where
  "pi_logits_outputs masking eps test_mode agent_outs reshaped_avail_actions =
     (let outs1 = (if masking then masked_fill agent_outs reshaped_avail_actions (- (10 ^ 10))
                   else agent_outs);
          outs2 = map softmax_fl outs1
      in if test_mode then outs2
         else
           (let outs3 =
                  (if masking then
                     map2 (\<lambda>row mrow. map (\<lambda>p. (1 - eps) * p + 1 * eps / real (sum_list mrow)) row)
                       outs2 reshaped_avail_actions
                   else
                     map (\<lambda>row. map (\<lambda>p. (1 - eps) * p + 1 * eps / real (length row)) row) outs2)
            in if masking then masked_fill outs3 reshaped_avail_actions 0 else outs3))"

text \<open>\<open>x.view(bs, n, -1)\<close> of a matrix with \<open>bs * n\<close> rows.\<close>

definition view3 :: "nat \<Rightarrow> nat \<Rightarrow> mat \<Rightarrow> tensor3" where
  "view3 bs n x = map (\<lambda>b. take n (drop (b * n) x)) [0..<bs]"

subsection \<open>forward and init_hidden\<close>

text \<open>
  \<open>forward\<close>. The shared policy \<open>net\<close> is called with the controller's weights and
  hidden state; the hidden state it returns is stored in the controller. The integer
  division by the number of agents raises on zero (a case that \<open>_build_inputs\<close> has
  already rejected).
\<close>

definition forward ::
  "agent_net \<Rightarrow> controller \<Rightarrow> ep_batch \<Rightarrow> nat \<Rightarrow> task \<Rightarrow> bool \<Rightarrow> (error + tensor3) \<times> controller" where
  "forward net c batch t task test_mode =
     (case build_inputs c batch t task of Inl e \<Rightarrow> (Inl e, c) | Inr agent_inputs \<Rightarrow>
      case slice_t (avail_actions batch) t of Inl e \<Rightarrow> (Inl e, c) | Inr avail \<Rightarrow>
      case task2n_agents c task of None \<Rightarrow> (Inl KeyError, c) | Some n \<Rightarrow>
      if n = 0 then (Inl ZeroDivisionError, c) else
      case get_task_repres c task False of Inl e \<Rightarrow> (Inl e, c) | Inr task_repre \<Rightarrow>
      (let bs = length agent_inputs div n;
           (agent_outs, h) =
              net (agent c) agent_inputs (hidden_states c) (concat (replicate bs task_repre)) task;
           c' = c\<lparr>hidden_states := Some h\<rparr>;
           outs = (if agent_output_type c = ''pi_logits'' then
                     pi_logits_outputs (mask_before_softmax c \<noteq> Some False) (epsilon c)
                       test_mode agent_outs (concat avail)
                   else agent_outs)
       in (Inr (view3 (batch_size batch) n outs), c')))"

text \<open>
  \<open>init_hidden\<close>: the policy's initial hidden vector (a parameter here), expanded to
  every batch element and agent.
\<close>

definition init_hidden :: "vec \<Rightarrow> controller \<Rightarrow> nat \<Rightarrow> task \<Rightarrow> (error + unit) \<times> controller" where
  "init_hidden h0 c bsize task =
     (case task2n_agents c task of
        None \<Rightarrow> (Inl KeyError, c)
      | Some n \<Rightarrow> (Inr (), c\<lparr>hidden_states := Some (replicate bsize (replicate n h0))\<rparr>))"

section \<open>The attention mixer\<close>

subsection \<open>Layers\<close>

text \<open>\<open>nn.Linear\<close>: one row of \<open>weight\<close> and one entry of \<open>bias\<close> per output.\<close>

record linear =
  weight :: mat
  bias :: vec

definition apply_linear :: "linear \<Rightarrow> vec \<Rightarrow> vec" where
  "apply_linear l x = map2 (\<lambda>row b. dot row x + b) (weight l) (bias l)"

text \<open>\<open>th.bmm\<close> on one batch element: the product of two matrices.\<close>

definition matmul :: "mat \<Rightarrow> mat \<Rightarrow> mat" where
  "matmul A B = map (\<lambda>row. map (dot row) (transpose B)) A"

definition mat_add :: "mat \<Rightarrow> mat \<Rightarrow> mat" where
  "mat_add A B = map2 (map2 (+)) A B"

definition mean :: "vec \<Rightarrow> real" where
  "mean xs = sum_list xs / real (length xs)"

text \<open>The mean over the first axis of a matrix (the agent axis of the hypernetworks' outputs).\<close>

definition mean_dim0 :: "mat \<Rightarrow> vec" where
  "mean_dim0 M = map mean (transpose M)"

text \<open>
  The softmax of a vector as the mathematical function, for the attention scores: no
  property of the mixer below rests on an exponential that underflows.
\<close>

definition softmax :: "vec \<Rightarrow> vec" where
  "softmax xs = map (\<lambda>x. exp x / sum_list (map exp xs)) xs"

text \<open>The softmax over the first axis of a matrix: every column is normalised.\<close>

definition softmax_dim0 :: "mat \<Rightarrow> mat" where
  "softmax_dim0 M = transpose (map softmax (transpose M))"

definition elu :: "real \<Rightarrow> real" where
  "elu x = (if x > 0 then x else exp x - 1)"

definition relu :: "real \<Rightarrow> real" where
  "relu x = max 0 x"

subsection \<open>The decomposer and the mixer's fields\<close>

text \<open>
  The decomposer is outside the two source files: its two functions are fields, given
  for one (batch, time) element of the state. \<open>decompose_state\<close> returns the ally
  features, the enemy features, the last-action features and the timestep feature;
  \<open>decompose_action_info\<close> returns three parts, the third the compact action features.
\<close>

record decomposer =
  n_enemies :: nat
  state_last_action :: bool
  state_timestep_number :: bool
  decompose_state :: "vec \<Rightarrow> mat \<times> mat \<times> mat \<times> vec"
  decompose_action_info :: "mat \<Rightarrow> mat \<times> mat \<times> mat"

text \<open>\<open>V\<close> is \<open>Sequential(Linear, ReLU, Linear)\<close>: its two linear layers.\<close>

record qmixer =
  n_agents :: nat
  embed_dim :: nat
  attn_embed_dim :: nat
  entity_embed_dim :: nat
  decomposer :: decomposer
  ally_encoder :: linear
  enemy_encoder :: linear
  query :: linear
  key :: linear
  hyper_w_1 :: linear
  hyper_w_final :: linear
  hyper_b_1 :: linear
  V :: "linear \<times> linear"

subsection \<open>QMixer.forward\<close>

text \<open>Lines 61 to 76, for one (batch, time) element: the embeddings of all entities.\<close>

definition entity_embed :: "qmixer \<Rightarrow> vec \<Rightarrow> mat" where
  "entity_embed m st =
     (let (ally_states, enemy_states, last_action_states, timestep_number_state) =
            decompose_state (decomposer m) st;
          ally_states' =
            (if state_last_action (decomposer m) then
               (let (_, _, compact_action_states) =
                      decompose_action_info (decomposer m) last_action_states
                in map2 (@) ally_states compact_action_states)
             else ally_states);
          ally_embed = map (apply_linear (ally_encoder m)) ally_states';
          enemy_embed = map (apply_linear (enemy_encoder m)) enemy_states
      in ally_embed @ enemy_embed)"

text \<open>
  Lines 79 to 84, for one (batch, time) element. \<open>proj_query\<close> has one row per entity,
  \<open>proj_key\<close> and \<open>proj_value\<close> have one column per entity; the softmax is over axis 1
  of the batched \<open>energy\<close>, which is the first axis of the element's matrix; the mean is
  over the last axis.
\<close>

definition proj_query :: "qmixer \<Rightarrow> mat \<Rightarrow> mat" where
  "proj_query m e = map (apply_linear (query m)) e"

definition proj_key :: "qmixer \<Rightarrow> mat \<Rightarrow> mat" where
  "proj_key m e = transpose (map (apply_linear (key m)) e)"

definition energy :: "qmixer \<Rightarrow> mat \<Rightarrow> mat" where
  "energy m e = matmul (proj_query m e) (proj_key m e)"

definition attn_score :: "qmixer \<Rightarrow> mat \<Rightarrow> mat" where
  "attn_score m e = softmax_dim0 (energy m e)"

definition attn_out :: "qmixer \<Rightarrow> mat \<Rightarrow> vec" where
  "attn_out m e = map mean (matmul (transpose e) (attn_score m e))"

text \<open>
  Lines 90 to 108, for one (batch, time) element: the mixing input of every agent slot,
  the two mixing layers, and the row \<open>y\<close> (one entry).
\<close>

definition V_net :: "linear \<times> linear \<Rightarrow> vec \<Rightarrow> vec" where
  "V_net v x = apply_linear (snd v) (map relu (apply_linear (fst v) x))"

definition mixing_input :: "qmixer \<Rightarrow> vec \<Rightarrow> mat \<Rightarrow> mat" where
  "mixing_input m ctx task_repre = map2 (@) (replicate (n_agents m) ctx) task_repre"

definition mix :: "qmixer \<Rightarrow> vec \<Rightarrow> vec \<Rightarrow> mat \<Rightarrow> vec" where
  "mix m agent_qs ctx task_repre =
     (let inp = mixing_input m ctx task_repre;
          w1 = map (\<lambda>x. map abs (apply_linear (hyper_w_1 m) x)) inp;
          b1 = mean_dim0 (map (apply_linear (hyper_b_1 m)) inp);
          hidden = map (map elu) (mat_add (matmul [agent_qs] w1) [b1]);
          w_final = mean_dim0 (map (\<lambda>x. map abs (apply_linear (hyper_w_final m) x)) inp);
          v = mean_dim0 (map (V_net (V m)) inp);
          y = mat_add (matmul hidden (map (\<lambda>w. [w]) w_final)) [v]
      in concat y)"

definition map3 :: "('a \<Rightarrow> 'b \<Rightarrow> 'c \<Rightarrow> 'd) \<Rightarrow> 'a list \<Rightarrow> 'b list \<Rightarrow> 'c list \<Rightarrow> 'd list" where
  "map3 f xs ys zs = map (\<lambda>(x, y, z). f x y z) (zip xs (zip ys zs))"

text \<open>
  \<open>forward\<close> of the mixer on \<open>agent_qs\<close> [batch][time][agent], \<open>states\<close>
  [batch][time][feature] and \<open>task_repre_mu\<close> [batch][time][agent][feature]. The
  attention output is computed first, from the states alone; then the timestep mode
  raises; otherwise every (batch, time) element is mixed, and the result is
  [batch][time][1].
\<close>

definition mixer_forward :: "qmixer \<Rightarrow> tensor3 \<Rightarrow> tensor3 \<Rightarrow> tensor4 \<Rightarrow> error + tensor3" where
  "mixer_forward m agent_qs states task_repre_mu =
     (let ctx = map (map (\<lambda>st. attn_out m (entity_embed m st))) states
      in if state_timestep_number (decomposer m) then Inl NotImplementedException
         else Inr (map3 (map3 (mix m)) agent_qs ctx task_repre_mu))"

section \<open>Auxiliary notions for the properties\<close>

text \<open>A matrix without negative entries.\<close>

definition nonneg_mat :: "mat \<Rightarrow> bool" where
  "nonneg_mat M = list_all (list_all (\<lambda>x. 0 \<le> x)) M"

text \<open>
  The attention step as the specification words it, to compare with \<open>attn_out\<close>: scaled
  dot-product scores between the query and key projections of all entity pairs (the scale
  is the usual one, the square root of the attention dimension), a softmax over the key
  entity axis (one distribution per querying entity), the weights combine the unprojected
  embeddings, and the results are averaged over the entities.
\<close>

definition attn_out_as_specified :: "qmixer \<Rightarrow> mat \<Rightarrow> vec" where
  "attn_out_as_specified m e =
     (let scores = map (map (\<lambda>s. s / sqrt (real (attn_embed_dim m))))
                     (matmul (proj_query m e) (proj_key m e));
          weights = map softmax scores;
          per_entity = matmul weights e
      in mean_dim0 per_entity)"

section \<open>Measuring a returned distribution\<close>

text \<open>
  The probability that a row \<open>p\<close> gives to the available actions of the mask row \<open>av\<close>
  (the entries of \<open>av\<close> that are not zero), and to the unavailable ones.
\<close>

definition avail_mass :: "vec \<Rightarrow> nat list \<Rightarrow> real" where
  "avail_mass p av = sum_list (map2 (\<lambda>q m. if m = 0 then 0 else q) p av)"

definition unavail_mass :: "vec \<Rightarrow> nat list \<Rightarrow> real" where
  "unavail_mass p av = sum_list (map2 (\<lambda>q m. if m = 0 then q else 0) p av)"

section \<open>Concrete inputs\<close>

text \<open>
  A controller for one task with two agents and three actions, a batch of one episode
  with one timestep, and a policy network that returns the logit 0 for every action.
\<close>

definition mac0 :: controller where
  "mac0 = \<lparr> train_tasks = [''2m''],
             task2args = [''2m'' \<mapsto> \<lparr>task_args.n_agents = 2, obs_last_action = True, obs_agent_id = True\<rparr>],
             task2n_agents = [''2m'' \<mapsto> 2],
             agent_output_type = ''pi_logits'',
             mask_before_softmax = None,
             epsilon = 1/2,
             agent = [1, 2],
             dynamic_encoder = [3],
             task2dynamic_decoder = [''2m'' \<mapsto> [4]],
             hidden_states = None,
             task2repre = [''2m'' \<mapsto> [1, 0]] \<rparr>"

definition batch0 :: ep_batch where
  "batch0 = \<lparr> batch_size = 1,
               obs = [[[[1/2], [1/4]]]],
               state = [[[0]]],
               avail_actions = [[[[1, 0, 1], [1, 0, 0]]]],
               actions_onehot = [[[[1, 0, 0], [1, 0, 0]]]] \<rparr>"

text \<open>The same batch, with no action available to the first agent.\<close>

definition batch1 :: ep_batch where
  "batch1 = batch0\<lparr> avail_actions := [[[[0, 0, 0], [1, 0, 0]]]] \<rparr>"

definition net0 :: agent_net where
  "net0 w inputs h task_repre task = (map (\<lambda>_. [0, 0, 0]) inputs, [[[0]]])"

text \<open>
  A mixer for two agents and one enemy, with embeddings and attention of dimension 1; the
  state lists one feature per entity. \<open>mixer1\<close> is the same mixer with an attention of
  dimension 4.
\<close>

definition dec0 :: decomposer where
  "dec0 = \<lparr> n_enemies = 1, state_last_action = False, state_timestep_number = False,
             decompose_state = (\<lambda>st. (map (\<lambda>x. [x]) (take 2 st), map (\<lambda>x. [x]) (drop 2 st), [], [])),
             decompose_action_info = (\<lambda>a. ([], [], [])) \<rparr>"

definition mixer0 :: qmixer where
  "mixer0 = \<lparr> n_agents = 2, embed_dim = 1, attn_embed_dim = 1, entity_embed_dim = 1,
               decomposer = dec0,
               ally_encoder = \<lparr>weight = [[1]], bias = [0]\<rparr>,
               enemy_encoder = \<lparr>weight = [[1]], bias = [0]\<rparr>,
               query = \<lparr>weight = [[ln 2]], bias = [0]\<rparr>,
               key = \<lparr>weight = [[0]], bias = [1]\<rparr>,
               hyper_w_1 = \<lparr>weight = [[0, 1]], bias = [0]\<rparr>,
               hyper_w_final = \<lparr>weight = [[0, 2]], bias = [0]\<rparr>,
               hyper_b_1 = \<lparr>weight = [[0, 0]], bias = [0]\<rparr>,
               V = (\<lparr>weight = [[0, 0]], bias = [1]\<rparr>, \<lparr>weight = [[1]], bias = [0]\<rparr>) \<rparr>"

definition mixer1 :: qmixer where
  "mixer1 = mixer0\<lparr> attn_embed_dim := 4,
               query := \<lparr>weight = [[ln 2], [0], [0], [0]], bias = [0, 0, 0, 0]\<rparr>,
               key := \<lparr>weight = [[0], [0], [0], [0]], bias = [1, 0, 0, 0]\<rparr> \<rparr>"

section \<open>Task representations: the accessor\<close>

text \<open>
  C7. For every task of the controller, \<open>get_task_repres\<close> with \<open>require_grad=True\<close>
  fails (with the assertion's error, whatever the task), and with \<open>require_grad=False\<close>
  it returns the stored vector of the task repeated once per agent of the task.
\<close>

theorem get_task_repres_contract:
  assumes "task2repre c task = Some r" and "task2n_agents c task = Some n"
  shows "get_task_repres c task True = Inl AssertionError
         \<and> get_task_repres c task False = Inr (replicate n r)"
  using assms by (simp add: get_task_repres_def)

theorem get_task_repres_contract_witness:
  "task2repre mac0 ''2m'' = Some [1, 0] \<and> task2n_agents mac0 ''2m'' = Some 2
   \<and> get_task_repres mac0 ''2m'' True = Inl AssertionError
   \<and> get_task_repres mac0 ''2m'' False = Inr [[1, 0], [1, 0]]"
  using get_task_repres_contract [of mac0 "''2m''" "[1, 0]" 2]
  by (simp add: mac0_def numeral_2_eq_2)

section \<open>Saving and loading the shared weights\<close>

lemma save_models_writes_both:
  "save_models c path fs (path @ ''/agent.th'') = Some (agent c)
   \<and> save_models c path fs (path @ ''/dynamic_encoder.th'') = Some (dynamic_encoder c)"
  by (simp add: save_models_def)

lemma load_state_restores_both:
  "agent (load_state c other_mac) = agent other_mac
   \<and> dynamic_encoder (load_state c other_mac) = dynamic_encoder other_mac"
  by (simp add: load_state_def)

text \<open>
  C6. \<open>load_models\<close> does not restore the dynamic encoder. On the checkpoint that
  \<open>save_models\<close> wrote for a controller with policy weights [10, 20] and encoder
  weights [30], loading into a controller with encoder weights [3] restores the policy
  weights, raises \<open>AttributeError\<close>, and leaves the encoder's weights at [3].
\<close>

theorem load_models_skips_dynamic_encoder:
  "load_models mac0 ''ckpt''
      (save_models (mac0\<lparr>agent := [10, 20], dynamic_encoder := [30]\<rparr>) ''ckpt'' Map.empty)
     = (Inl AttributeError, mac0\<lparr>agent := [10, 20]\<rparr>)
   \<and> dynamic_encoder (mac0\<lparr>agent := [10, 20]\<rparr>) = [3]"
  by (simp add: load_models_def save_models_def getattr_module_def mac0_def)

text \<open>On every checkpoint directory the call ends in an error, and the encoder is untouched.\<close>

lemma load_models_never_succeeds:
  "fst (load_models c path fs) \<noteq> Inr ()
   \<and> dynamic_encoder (snd (load_models c path fs)) = dynamic_encoder c"
  by (simp add: load_models_def getattr_module_def split: option.splits)

section \<open>The policy's softmax and the mass of the available actions\<close>

lemma exp_fl_nonneg: "0 \<le> exp_fl x"
  by (simp add: exp_fl_def)

lemma exp_fl_0: "exp_fl 0 = 1"
  by (simp add: exp_fl_def)

lemma exp_fl_underflow: "x < - 746 \<Longrightarrow> exp_fl x = 0"
  by (simp add: exp_fl_def)

lemma row_max_ge: "x \<in> set xs \<Longrightarrow> x \<le> row_max xs"
  by (induction xs rule: row_max.induct) auto

lemma row_max_mem: "xs \<noteq> [] \<Longrightarrow> row_max xs \<in> set xs"
  by (induction xs rule: row_max.induct) (auto simp: max_def)

lemma softmax_fl_length [simp]: "length (softmax_fl xs) = length xs"
  by (simp add: softmax_fl_def)

lemma shifted_sum_nonneg: "0 \<le> sum_list (map (\<lambda>y. exp_fl (y - c)) xs)"
  by (induction xs) (simp_all add: add_nonneg_nonneg exp_fl_nonneg)

lemma shifted_sum_pos:
  assumes "xs \<noteq> []"
  shows "0 < sum_list (map (\<lambda>y. exp_fl (y - row_max xs)) xs)"
proof -
  have "exp_fl (row_max xs - row_max xs) \<in> set (map (\<lambda>y. exp_fl (y - row_max xs)) xs)"
    using row_max_mem[OF assms] by (simp only: set_map) (rule imageI)
  then have "exp_fl (row_max xs - row_max xs) \<le> sum_list (map (\<lambda>y. exp_fl (y - row_max xs)) xs)"
    by (intro member_le_sum_list) (auto simp: exp_fl_nonneg)
  then show ?thesis by (simp add: exp_fl_0)
qed

lemma softmax_fl_nth:
  "j < length xs \<Longrightarrow>
   softmax_fl xs ! j = exp_fl (xs ! j - row_max xs) / sum_list (map (\<lambda>y. exp_fl (y - row_max xs)) xs)"
  by (simp add: softmax_fl_def)

lemma softmax_fl_nonneg: "j < length xs \<Longrightarrow> 0 \<le> softmax_fl xs ! j"
  by (simp add: softmax_fl_nth shifted_sum_nonneg exp_fl_nonneg)

lemma sum_list_softmax_fl:
  assumes "xs \<noteq> []"
  shows "sum_list (softmax_fl xs) = 1"
proof -
  let ?S = "sum_list (map (\<lambda>y. exp_fl (y - row_max xs)) xs)"
  have "sum_list (softmax_fl xs) = ?S * inverse ?S"
    unfolding softmax_fl_def by (simp add: divide_inverse sum_list_mult_const comp_def)
  with shifted_sum_pos[OF assms] show ?thesis by simp
qed

lemma softmax_fl_underflow:
  "j < length xs \<Longrightarrow> xs ! j - row_max xs < - 746 \<Longrightarrow> softmax_fl xs ! j = 0"
  by (simp add: softmax_fl_nth exp_fl_underflow)

lemma fill_row_length [simp]: "length (fill_row v xs av) = min (length xs) (length av)"
  by (simp add: fill_row_def)

lemma fill_row_nth: "j < length xs \<Longrightarrow> j < length av \<Longrightarrow>
   fill_row v xs av ! j = (if av ! j = 0 then v else xs ! j)"
  by (simp add: fill_row_def)

lemma mass_split: "length p = length av \<Longrightarrow> avail_mass p av + unavail_mass p av = sum_list p"
  by (induction p av rule: list_induct2) (auto simp: avail_mass_def unavail_mass_def)

lemma unavail_mass_zero:
  "length p = length av \<Longrightarrow> (\<forall>j < length p. av ! j = 0 \<longrightarrow> p ! j = 0) \<Longrightarrow> unavail_mass p av = 0"
proof (induction p av rule: list_induct2)
  case Nil then show ?case by (simp add: unavail_mass_def)
next
  case (Cons q p a av)
  have "unavail_mass p av = 0" using Cons.prems Cons.IH by fastforce
  moreover have "a = 0 \<Longrightarrow> q = 0" using Cons.prems by fastforce
  ultimately show ?case by (auto simp: unavail_mass_def)
qed

lemma avail_mass_affine:
  "length p = length av \<Longrightarrow>
   avail_mass (map (\<lambda>q. c * q + d) p) av = c * avail_mass p av + d * real (length (filter (\<lambda>a. a \<noteq> 0) av))"
  by (induction p av rule: list_induct2) (auto simp: avail_mass_def algebra_simps)

lemma avail_mass_fill0: "length p = length av \<Longrightarrow> avail_mass (fill_row 0 p av) av = avail_mass p av"
  by (induction p av rule: list_induct2) (auto simp: avail_mass_def fill_row_def)

lemma sum_list_01: "set av \<subseteq> {0, 1} \<Longrightarrow> sum_list av = length (filter (\<lambda>a. a \<noteq> 0) (av::nat list))"
  by (induction av) auto

lemma available_count_pos: "k < length av \<Longrightarrow> av ! k \<noteq> 0 \<Longrightarrow> 0 < length (filter (\<lambda>a. a \<noteq> 0) (av::nat list))"
proof -
  assume "k < length av" "av ! k \<noteq> 0"
  then have "av ! k \<in> set (filter (\<lambda>a. a \<noteq> 0) av)" by simp
  then show ?thesis by (simp only: length_pos_if_in_set)
qed

lemma masked_softmax_facts:
  assumes len: "length xs = length av" and k: "k < length av" "av ! k \<noteq> 0"
    and big: "- (10 ^ 10) + 746 < xs ! k"
  defines "q \<equiv> softmax_fl (fill_row (- (10 ^ 10)) xs av)"
  shows "length q = length av"
    and "\<forall>j < length av. 0 \<le> q ! j"
    and "\<forall>j < length av. av ! j = 0 \<longrightarrow> q ! j = 0"
    and "avail_mass q av = 1"
proof -
  let ?m = "fill_row (- (10 ^ 10)) xs av"
  have lm: "length ?m = length av" using len by simp
  show lq: "length q = length av" using lm by (simp add: q_def)
  show "\<forall>j < length av. 0 \<le> q ! j"
    using lm by (simp add: q_def softmax_fl_nonneg)
  have mk: "?m ! k = xs ! k" using k len by (simp add: fill_row_nth)
  have "?m ! k \<in> set ?m" using k(1) lm by (intro nth_mem) simp
  then have ge: "xs ! k \<le> row_max ?m" using row_max_ge[of "?m ! k" ?m] mk by simp
  show z: "\<forall>j < length av. av ! j = 0 \<longrightarrow> q ! j = 0"
  proof (intro allI impI)
    fix j assume j: "j < length av" and a: "av ! j = 0"
    have "?m ! j = - (10 ^ 10)" using j a len by (simp add: fill_row_nth)
    then have "?m ! j - row_max ?m < - 746" using ge big by linarith
    then show "q ! j = 0" unfolding q_def using j lm by (intro softmax_fl_underflow) simp_all
  qed
  have ne: "?m \<noteq> []"
  proof
    assume "?m = []"
    then have "length ?m = 0" by (simp only: list.size)
    with lm k(1) show False by linarith
  qed
  have "unavail_mass q av = 0" using lq z by (intro unavail_mass_zero) simp_all
  then show "avail_mass q av = 1"
    using mass_split[OF lq] sum_list_softmax_fl[OF ne] by (simp add: q_def)
qed

section \<open>One row of the returned distribution\<close>

lemma pi_outputs_row_test:
  "i < length X \<Longrightarrow> i < length R \<Longrightarrow>
   pi_logits_outputs True eps True X R ! i = softmax_fl (fill_row (- (10 ^ 10)) (X ! i) (R ! i))"
  by (simp add: pi_logits_outputs_def masked_fill_def)

lemma pi_outputs_row_train:
  "i < length X \<Longrightarrow> i < length R \<Longrightarrow>
   pi_logits_outputs True eps False X R ! i =
     fill_row 0 (map (\<lambda>p. (1 - eps) * p + eps / real (sum_list (R ! i)))
                   (softmax_fl (fill_row (- (10 ^ 10)) (X ! i) (R ! i)))) (R ! i)"
  by (simp add: pi_logits_outputs_def masked_fill_def)

lemma pi_outputs_row_unmasked:
  "i < length X \<Longrightarrow>
   pi_logits_outputs False eps False X R ! i =
     map (\<lambda>p. (1 - eps) * p + eps / real (length (X ! i))) (softmax_fl (X ! i))"
  by (simp add: pi_logits_outputs_def)

lemma pi_outputs_length:
  "length R = length X \<Longrightarrow> length (pi_logits_outputs True eps tm X R) = length X"
  by (simp add: pi_logits_outputs_def masked_fill_def Let_def)

lemma pi_outputs_length_unmasked:
  "length (pi_logits_outputs False eps tm X R) = length X"
  by (simp add: pi_logits_outputs_def Let_def)

lemma pi_row_distribution:
  fixes test_mode :: bool
  assumes i: "i < length X" "i < length R"
    and len: "length (X ! i) = length (R ! i)"
    and k: "k < length (R ! i)" "R ! i ! k \<noteq> 0"
    and big: "- (10 ^ 10) + 746 < X ! i ! k"
    and eps: "0 \<le> eps" "eps \<le> 1"
    and bin: "set (R ! i) \<subseteq> {0, 1}"
  defines "p \<equiv> pi_logits_outputs True eps test_mode X R ! i"
  shows "length p = length (R ! i)"
    and "\<forall>j < length (R ! i). 0 \<le> p ! j"
    and "\<forall>j < length (R ! i). R ! i ! j = 0 \<longrightarrow> p ! j = 0"
    and "avail_mass p (R ! i) = 1"
proof -
  let ?av = "R ! i"
  let ?q = "softmax_fl (fill_row (- (10 ^ 10)) (X ! i) ?av)"
  note f = masked_softmax_facts[OF len k big]
  have navail: "real (sum_list ?av) = real (length (filter (\<lambda>a. a \<noteq> 0) ?av))"
    using sum_list_01[OF bin] by simp
  have pos: "0 < length (filter (\<lambda>a. a \<noteq> 0) ?av)"
    using k by (rule available_count_pos)
  show "length p = length ?av"
    using i f(1) by (cases test_mode) (simp_all add: p_def pi_outputs_row_test pi_outputs_row_train)
  show "\<forall>j < length ?av. 0 \<le> p ! j"
  proof (cases test_mode)
    case True then show ?thesis using i f(2) by (simp add: p_def pi_outputs_row_test)
  next
    case False
    have "0 \<le> (1 - eps) * ?q ! j + eps / real (sum_list ?av)" if "j < length ?av" for j
      using that f(2) eps by (intro add_nonneg_nonneg mult_nonneg_nonneg) simp_all
    then show ?thesis using False i f(1) by (simp add: p_def pi_outputs_row_train fill_row_nth)
  qed
  show "\<forall>j < length ?av. ?av ! j = 0 \<longrightarrow> p ! j = 0"
  proof (cases test_mode)
    case True then show ?thesis using i f(3) by (simp add: p_def pi_outputs_row_test)
  next
    case False then show ?thesis using i f(1) by (simp add: p_def pi_outputs_row_train fill_row_nth)
  qed
  show "avail_mass p ?av = 1"
  proof (cases test_mode)
    case True then show ?thesis using i f(4) by (simp add: p_def pi_outputs_row_test)
  next
    case False
    have "avail_mass p ?av
            = avail_mass (map (\<lambda>p. (1 - eps) * p + eps / real (sum_list ?av)) ?q) ?av"
      using False i f(1) by (simp add: p_def pi_outputs_row_train avail_mass_fill0)
    also have "\<dots> = (1 - eps) * avail_mass ?q ?av
                      + eps / real (sum_list ?av) * real (length (filter (\<lambda>a. a \<noteq> 0) ?av))"
      using f(1) by (rule avail_mass_affine)
    also have "\<dots> = (1 - eps) * 1 + eps"
      using pos f(4) by (simp add: navail)
    finally show ?thesis by simp
  qed
qed

lemma pi_row_floor_masked:
  assumes i: "i < length X" "i < length R"
    and len: "length (X ! i) = length (R ! i)"
    and eps: "eps \<le> 1"
    and bin: "set (R ! i) \<subseteq> {0, 1}"
    and j: "j < length (R ! i)" "R ! i ! j \<noteq> 0"
  shows "eps / real (length (filter (\<lambda>m. m \<noteq> 0) (R ! i)))
           \<le> pi_logits_outputs True eps False X R ! i ! j"
proof -
  let ?av = "R ! i"
  let ?q = "softmax_fl (fill_row (- (10 ^ 10)) (X ! i) ?av)"
  have lq: "length ?q = length ?av" using len by simp
  have num: "real (sum_list ?av) = real (length (filter (\<lambda>m. m \<noteq> 0) ?av))"
    using sum_list_01[OF bin] by simp
  have qj: "0 \<le> ?q ! j" using j len by (intro softmax_fl_nonneg) simp
  have "0 \<le> (1 - eps) * ?q ! j" using qj eps by simp
  moreover have "pi_logits_outputs True eps False X R ! i ! j
                   = (1 - eps) * ?q ! j + eps / real (sum_list ?av)"
    using j lq by (simp add: pi_outputs_row_train[OF i] fill_row_nth)
  ultimately show ?thesis by (simp add: num)
qed

lemma pi_row_floor_unmasked:
  assumes i: "i < length X" and eps: "eps \<le> 1" and j: "j < length (X ! i)"
  shows "eps / real (length (X ! i)) \<le> pi_logits_outputs False eps False X R ! i ! j"
proof -
  have "0 \<le> softmax_fl (X ! i) ! j" using j by (rule softmax_fl_nonneg)
  then have "0 \<le> (1 - eps) * softmax_fl (X ! i) ! j" using eps by simp
  then show ?thesis using j by (simp add: pi_outputs_row_unmasked[OF i])
qed

section \<open>The rows that forward returns\<close>

lemma view3_nth:
  "b < bs \<Longrightarrow> a < n \<Longrightarrow> b * n + a < length x \<Longrightarrow> view3 bs n x ! b ! a = x ! (b * n + a)"
  by (simp add: view3_def)

lemma length_concat_uniform:
  "\<forall>x \<in> set xss. length x = n \<Longrightarrow> length (concat xss) = length xss * n"
  by (induction xss) simp_all

lemma concat_nth_uniform:
  "\<forall>x \<in> set xss. length x = n \<Longrightarrow> b < length xss \<Longrightarrow> a < n
   \<Longrightarrow> concat xss ! (b * n + a) = xss ! b ! a"
proof (induction xss arbitrary: b)
  case Nil then show ?case by simp
next
  case (Cons x xss)
  show ?case
  proof (cases b)
    case 0 then show ?thesis using Cons.prems by (simp add: nth_append)
  next
    case (Suc b')
    then show ?thesis using Cons.prems Cons.IH[of b'] by (simp add: nth_append)
  qed
qed

lemma flat_index_bound: "b < bs \<Longrightarrow> a < n \<Longrightarrow> b * n + a < bs * (n::nat)"
proof -
  assume b: "b < bs" and a: "a < n"
  have "b * n + a < b * n + n" using a by simp
  also have "\<dots> = Suc b * n" by simp
  also have "\<dots> \<le> bs * n" using b by (intro mult_le_mono1) simp
  finally show ?thesis .
qed

lemma forward_unfold:
  assumes "build_inputs c batch t task = Inr inputs"
    and "slice_t (avail_actions batch) t = Inr avail"
    and "task2n_agents c task = Some n" and "0 < n"
    and "task2repre c task = Some r"
    and "net (agent c) inputs (hidden_states c)
           (concat (replicate (length inputs div n) (replicate n r))) task = (logits, h)"
  shows "forward net c batch t task test_mode =
           (Inr (view3 (batch_size batch) n
                  (if agent_output_type c = ''pi_logits'' then
                     pi_logits_outputs (mask_before_softmax c \<noteq> Some False) (epsilon c)
                       test_mode logits (concat avail)
                   else logits)),
            c\<lparr>hidden_states := Some h\<rparr>)"
  using assms by (simp add: forward_def get_task_repres_def)

lemma forward_pi_row:
  assumes "build_inputs c batch t task = Inr inputs"
    and "slice_t (avail_actions batch) t = Inr avail"
    and "task2n_agents c task = Some n"
    and "task2repre c task = Some r"
    and "net (agent c) inputs (hidden_states c)
           (concat (replicate (length inputs div n) (replicate n r))) task = (logits, h)"
    and "agent_output_type c = ''pi_logits''"
    and "mask_before_softmax c \<noteq> Some False"
    and "length avail = batch_size batch"
    and "\<forall>x \<in> set avail. length x = n"
    and "length logits = batch_size batch * n"
    and "b < batch_size batch" and "a < n"
  shows "\<exists>out. forward net c batch t task test_mode = (Inr out, c\<lparr>hidden_states := Some h\<rparr>)
           \<and> out ! b ! a = pi_logits_outputs True (epsilon c) test_mode logits (concat avail) ! (b * n + a)"
    and "concat avail ! (b * n + a) = avail ! b ! a"
    and "b * n + a < length logits" and "b * n + a < length (concat avail)"
proof -
  have n: "0 < n" using assms(12) by simp
  have lc: "length (concat avail) = batch_size batch * n"
    using length_concat_uniform[OF assms(9)] assms(8) by simp
  have idx: "b * n + a < batch_size batch * n"
    using assms(11,12) by (rule flat_index_bound)
  show "b * n + a < length logits" using idx assms(10) by simp
  show "b * n + a < length (concat avail)" using idx lc by simp
  show "concat avail ! (b * n + a) = avail ! b ! a"
    using assms(8,9,11,12) by (intro concat_nth_uniform) simp_all
  have lo: "length (pi_logits_outputs True (epsilon c) test_mode logits (concat avail)) = length logits"
    using lc assms(10) by (intro pi_outputs_length) simp
  show "\<exists>out. forward net c batch t task test_mode = (Inr out, c\<lparr>hidden_states := Some h\<rparr>)
           \<and> out ! b ! a = pi_logits_outputs True (epsilon c) test_mode logits (concat avail) ! (b * n + a)"
    using forward_unfold[where net = net and test_mode = test_mode, OF assms(1,2,3) n assms(4,5)]
      assms(6,7,11,12) idx lo assms(10)
    by (simp add: view3_nth)
qed

lemma forward_row_unmasked:
  assumes "build_inputs c batch t task = Inr inputs"
    and "slice_t (avail_actions batch) t = Inr avail"
    and "task2n_agents c task = Some n"
    and "task2repre c task = Some r"
    and "net (agent c) inputs (hidden_states c)
           (concat (replicate (length inputs div n) (replicate n r))) task = (logits, h)"
    and "agent_output_type c = ''pi_logits''"
    and "mask_before_softmax c = Some False"
    and "length logits = batch_size batch * n"
    and "b < batch_size batch" and "a < n"
  shows "\<exists>out. forward net c batch t task test_mode = (Inr out, c\<lparr>hidden_states := Some h\<rparr>)
           \<and> out ! b ! a = pi_logits_outputs False (epsilon c) test_mode logits (concat avail) ! (b * n + a)"
    and "b * n + a < length logits"
proof -
  have n: "0 < n" using assms(10) by simp
  have idx: "b * n + a < batch_size batch * n"
    using assms(9,10) by (rule flat_index_bound)
  show "b * n + a < length logits" using idx assms(8) by simp
  have lo: "length (pi_logits_outputs False (epsilon c) test_mode logits (concat avail)) = length logits"
    by (rule pi_outputs_length_unmasked)
  show "\<exists>out. forward net c batch t task test_mode = (Inr out, c\<lparr>hidden_states := Some h\<rparr>)
           \<and> out ! b ! a = pi_logits_outputs False (epsilon c) test_mode logits (concat avail) ! (b * n + a)"
    using forward_unfold[where net = net and test_mode = test_mode, OF assms(1,2,3) n assms(4,5)]
      assms(6,7,9,10) idx lo assms(8)
    by (simp add: view3_nth)
qed

section \<open>The returned action distribution\<close>

lemma build_inputs_batch0:
  "build_inputs mac0 batch0 0 ''2m'' = Inr [[1/2, 0, 0, 0, 1, 0], [1/4, 0, 0, 0, 0, 1]]"
  by (simp add: build_inputs_def mac0_def batch0_def slice_t_def zeros_like_def eye_def
        upt_conv_Cons numeral_2_eq_2)

lemma slice_avail_batch0:
  "slice_t (avail_actions batch0) 0 = Inr [[[1, 0, 1], [1, 0, 0]]]"
  by (simp add: batch0_def slice_t_def)

lemma net0_batch0:
  "net0 (agent c) [[1/2, 0, 0, 0, 1, 0], [1/4, 0, 0, 0, 0, 1]] hs tr ''2m''
     = ([[0, 0, 0], [0, 0, 0]], [[[0]]])"
  by (simp add: net0_def)

text \<open>The policy's softmax on the rows of the concrete inputs.\<close>

lemma softmax_fl_masked3: "softmax_fl [0, - 10000000000, 0] = [1/2, 0, 1/2]"
  by (simp add: softmax_fl_def exp_fl_def)

lemma softmax_fl_masked3': "softmax_fl [0, - 10000000000, - 10000000000] = [1, 0, 0]"
  by (simp add: softmax_fl_def exp_fl_def)

lemma softmax_fl_uniform3: "softmax_fl [x, x, x] = [1/3, 1/3, 1/3]"
  by (simp add: softmax_fl_def exp_fl_def)

lemma forward_masked_eval:
  "forward net0 mac0 batch0 0 ''2m'' True
     = (Inr [[[1/2, 0, 1/2], [1, 0, 0]]], mac0\<lparr>hidden_states := Some [[[0]]]\<rparr>)"
  by (simp add: forward_def build_inputs_def get_task_repres_def mac0_def
      net0_def pi_logits_outputs_def masked_fill_def fill_row_def softmax_fl_masked3
      softmax_fl_masked3' view3_def upt_conv_Cons numeral_2_eq_2
      batch0_def slice_t_def zeros_like_def eye_def Let_def)

lemma forward_nomask_eval:
  "forward net0 (mac0\<lparr>mask_before_softmax := Some False\<rparr>) batch0 0 ''2m'' test_mode
     = (Inr [[[1/3, 1/3, 1/3], [1/3, 1/3, 1/3]]],
        mac0\<lparr>mask_before_softmax := Some False, hidden_states := Some [[[0]]]\<rparr>)"
  by (cases test_mode)
    (simp_all add: forward_def build_inputs_def get_task_repres_def mac0_def
      net0_def pi_logits_outputs_def softmax_fl_uniform3 view3_def upt_conv_Cons numeral_2_eq_2
      batch0_def slice_t_def zeros_like_def eye_def Let_def)

lemma forward_no_available_eval:
  "forward net0 mac0 batch1 0 ''2m'' True
     = (Inr [[[1/3, 1/3, 1/3], [1, 0, 0]]], mac0\<lparr>hidden_states := Some [[[0]]]\<rparr>)"
  by (simp add: forward_def build_inputs_def get_task_repres_def mac0_def
      net0_def pi_logits_outputs_def masked_fill_def fill_row_def softmax_fl_uniform3
      softmax_fl_masked3' view3_def upt_conv_Cons numeral_2_eq_2
      batch0_def batch1_def slice_t_def zeros_like_def eye_def Let_def)

text \<open>
  C1, as the code has it. With \<open>mask_before_softmax\<close> on (the default), logits as agent
  outputs, an epsilon between 0 and 1, availability entries 0 or 1 and, for the batch
  element \<open>b\<close> and agent \<open>a\<close>, an available action \<open>k\<close> whose logit is above
  \<open>-1e10 + 746\<close>, \<open>forward\<close> returns in test mode and in training mode a row with one
  non-negative entry per action, in which every unavailable action has probability
  exactly 0 and the probabilities of the available actions sum to 1 (the sum is exact in
  the model, which has no rounding).
\<close>

theorem forward_distribution:
  fixes test_mode :: bool
  assumes "build_inputs c batch t task = Inr inputs"
    and "slice_t (avail_actions batch) t = Inr avail"
    and "task2n_agents c task = Some n"
    and "task2repre c task = Some r"
    and "net (agent c) inputs (hidden_states c)
           (concat (replicate (length inputs div n) (replicate n r))) task = (logits, h)"
    and "agent_output_type c = ''pi_logits''"
    and "mask_before_softmax c \<noteq> Some False"
    and "length avail = batch_size batch"
    and "\<forall>x \<in> set avail. length x = n"
    and "length logits = batch_size batch * n"
    and "b < batch_size batch" and "a < n"
    and "length (logits ! (b * n + a)) = length (avail ! b ! a)"
    and "set (avail ! b ! a) \<subseteq> {0, 1}"
    and "k < length (avail ! b ! a)" and "avail ! b ! a ! k \<noteq> 0"
    and "- (10 ^ 10) + 746 < logits ! (b * n + a) ! k"
    and "0 \<le> epsilon c" and "epsilon c \<le> 1"
  shows "\<exists>out c'. forward net c batch t task test_mode = (Inr out, c')
          \<and> length (out ! b ! a) = length (avail ! b ! a)
          \<and> (\<forall>j < length (avail ! b ! a). 0 \<le> out ! b ! a ! j)
          \<and> (\<forall>j < length (avail ! b ! a). avail ! b ! a ! j = 0 \<longrightarrow> out ! b ! a ! j = 0)
          \<and> avail_mass (out ! b ! a) (avail ! b ! a) = 1"
proof -
  let ?i = "b * n + a"
  note row1 = forward_pi_row(1)[where net = net and test_mode = test_mode, OF assms(1-12)]
  note row = forward_pi_row(2-4)[where net = net, OF assms(1-12)]
  obtain out where fw: "forward net c batch t task test_mode = (Inr out, c\<lparr>hidden_states := Some h\<rparr>)"
    and o: "out ! b ! a = pi_logits_outputs True (epsilon c) test_mode logits (concat avail) ! ?i"
    using row1 by blast
  have av: "concat avail ! ?i = avail ! b ! a" by (rule row(1))
  have len: "length (logits ! ?i) = length (concat avail ! ?i)" using assms(13) av by simp
  have k: "k < length (concat avail ! ?i)" "concat avail ! ?i ! k \<noteq> 0"
    using assms(15,16) av by simp_all
  have bin: "set (concat avail ! ?i) \<subseteq> {0, 1}" using assms(14) av by simp
  note d = pi_row_distribution[where test_mode = test_mode,
      OF row(2) row(3) len k assms(17,18,19) bin, unfolded av, folded o]
  show ?thesis
    by (intro exI[of _ out] exI[of _ "c\<lparr>hidden_states := Some h\<rparr>"] conjI fw d)
qed

theorem forward_distribution_witness:
  "forward net0 mac0 batch0 0 ''2m'' True
     = (Inr [[[1/2, 0, 1/2], [1, 0, 0]]], mac0\<lparr>hidden_states := Some [[[0]]]\<rparr>)
   \<and> slice_t (avail_actions batch0) 0 = Inr [[[1, 0, 1], [1, 0, 0]]]
   \<and> avail_mass [1/2, 0, 1/2] [1, 0, 1] = 1"
proof -
  have h: "task2n_agents mac0 ''2m'' = Some 2" "task2repre mac0 ''2m'' = Some [1, 0]"
    "agent_output_type mac0 = ''pi_logits''" "mask_before_softmax mac0 \<noteq> Some False"
    "0 \<le> epsilon mac0" "epsilon mac0 \<le> 1"
    by (simp_all add: mac0_def)
  have s: "length [[[1, 0, 1], [1, 0, 0::nat]]] = batch_size batch0"
    "\<forall>x \<in> set [[[1, 0, 1], [1, 0, 0::nat]]]. length x = 2"
    "length [[0, 0, 0], [0, 0, 0::real]] = batch_size batch0 * 2"
    "0 < batch_size batch0" "(0::nat) < 2"
    "length ([[0, 0, 0], [0, 0, 0::real]] ! (0 * 2 + 0)) = length ([[[1, 0, 1], [1, 0, 0::nat]]] ! 0 ! 0)"
    "set ([[[1, 0, 1], [1, 0, 0::nat]]] ! 0 ! 0) \<subseteq> {0, 1}"
    "0 < length ([[[1, 0, 1], [1, 0, 0::nat]]] ! 0 ! 0)"
    "[[[1, 0, 1], [1, 0, 0::nat]]] ! 0 ! 0 ! 0 \<noteq> 0"
    "- (10 ^ 10) + 746 < [[0, 0, 0], [0, 0, 0::real]] ! (0 * 2 + 0) ! 0"
    by (simp_all add: batch0_def)
  from forward_distribution[where net = net0 and test_mode = True,
      OF build_inputs_batch0 slice_avail_batch0 h(1,2) net0_batch0 h(3,4) s h(5,6)]
  obtain out c' where fw: "forward net0 mac0 batch0 0 ''2m'' True = (Inr out, c')"
    and m: "avail_mass (out ! 0 ! 0) ([[[1, 0, 1], [1, 0, 0::nat]]] ! 0 ! 0) = 1"
    by blast
  have "out = [[[1/2, 0, 1/2], [1, 0, 0]]]" using fw by (simp add: forward_masked_eval)
  then have "avail_mass [1/2, 0, 1/2] [1, 0, 1] = 1" using m by simp
  then show ?thesis by (simp add: forward_masked_eval slice_avail_batch0)
qed

text \<open>
  C1 as stated fails, in two ways. With \<open>mask_before_softmax\<close> off nothing is masked:
  in test mode the first agent's unavailable action 1 (mask row [1, 0, 1]) has probability
  1/3. With the mask on, an agent without any available action (mask row [0, 0, 0]) has
  all its logits masked to the same value, and its three unavailable actions have
  probability 1/3 each.
\<close>

theorem forward_unmasked_counterexample:
  "fst (forward net0 (mac0\<lparr>mask_before_softmax := Some False\<rparr>) batch0 0 ''2m'' True)
     = Inr [[[1/3, 1/3, 1/3], [1/3, 1/3, 1/3]]]
   \<and> slice_t (avail_actions batch0) 0 = Inr [[[1, 0, 1], [1, 0, 0]]]
   \<and> fst (forward net0 mac0 batch1 0 ''2m'' True) = Inr [[[1/3, 1/3, 1/3], [1, 0, 0]]]
   \<and> slice_t (avail_actions batch1) 0 = Inr [[[0, 0, 0], [1, 0, 0]]]"
  by (simp add: forward_nomask_eval slice_avail_batch0 forward_no_available_eval)
     (simp add: batch1_def slice_t_def)

text \<open>The same for every pair of logits: a row without an available action is uniform.\<close>

lemma pi_logits_no_available_action:
  "pi_logits_outputs True eps True [[x, y]] [[0, 0]] = [[1/2, 1/2]]"
  by (simp add: pi_logits_outputs_def masked_fill_def fill_row_def softmax_fl_def exp_fl_def)

section \<open>The exploration floor\<close>

text \<open>
  C2, as the code has it. With logits as agent outputs, availability entries 0 or 1 and
  an epsilon of at most 1, \<open>forward\<close> in training mode gives, for batch element \<open>b\<close>
  and agent \<open>a\<close>: with \<open>mask_before_softmax\<close> on (the default), every available action
  a probability of at least epsilon divided by the number of available actions; with
  \<open>mask_before_softmax\<close> off, every action a probability of at least epsilon divided by
  the number of all actions.
\<close>

theorem forward_epsilon_floor:
  assumes "build_inputs c batch t task = Inr inputs"
    and "slice_t (avail_actions batch) t = Inr avail"
    and "task2n_agents c task = Some n"
    and "task2repre c task = Some r"
    and "net (agent c) inputs (hidden_states c)
           (concat (replicate (length inputs div n) (replicate n r))) task = (logits, h)"
    and "agent_output_type c = ''pi_logits''"
    and "length avail = batch_size batch"
    and "\<forall>x \<in> set avail. length x = n"
    and "length logits = batch_size batch * n"
    and "b < batch_size batch" and "a < n"
    and "length (logits ! (b * n + a)) = length (avail ! b ! a)"
    and "set (avail ! b ! a) \<subseteq> {0, 1}"
    and "epsilon c \<le> 1"
  shows "\<exists>out c'. forward net c batch t task False = (Inr out, c')
          \<and> (if mask_before_softmax c = Some False
              then (\<forall>j < length (avail ! b ! a).
                      epsilon c / real (length (avail ! b ! a)) \<le> out ! b ! a ! j)
              else (\<forall>j < length (avail ! b ! a). avail ! b ! a ! j \<noteq> 0 \<longrightarrow>
                      epsilon c / real (length (filter (\<lambda>m. m \<noteq> 0) (avail ! b ! a)))
                        \<le> out ! b ! a ! j))"
proof (cases "mask_before_softmax c = Some False")
  case True
  let ?i = "b * n + a"
  note row1 = forward_row_unmasked(1)[where net = net and test_mode = False,
      OF assms(1-6) True assms(9-11)]
  note row2 = forward_row_unmasked(2)[where net = net, OF assms(1-6) True assms(9-11)]
  obtain out where fw: "forward net c batch t task False = (Inr out, c\<lparr>hidden_states := Some h\<rparr>)"
    and o: "out ! b ! a = pi_logits_outputs False (epsilon c) False logits (concat avail) ! ?i"
    using row1 by blast
  have "epsilon c / real (length (avail ! b ! a)) \<le> out ! b ! a ! j"
    if "j < length (avail ! b ! a)" for j
    using pi_row_floor_unmasked[OF row2 assms(14), of j "concat avail"] that assms(12)
    by (simp add: o)
  then show ?thesis using fw True by auto
next
  case False
  let ?i = "b * n + a"
  note row1 = forward_pi_row(1)[where net = net and test_mode = False,
      OF assms(1-6) False assms(7-11)]
  note row = forward_pi_row(2-4)[where net = net, OF assms(1-6) False assms(7-11)]
  obtain out where fw: "forward net c batch t task False = (Inr out, c\<lparr>hidden_states := Some h\<rparr>)"
    and o: "out ! b ! a = pi_logits_outputs True (epsilon c) False logits (concat avail) ! ?i"
    using row1 by blast
  have av: "concat avail ! ?i = avail ! b ! a" by (rule row(1))
  have len: "length (logits ! ?i) = length (concat avail ! ?i)" using assms(12) av by simp
  have bin: "set (concat avail ! ?i) \<subseteq> {0, 1}" using assms(13) av by simp
  have "epsilon c / real (length (filter (\<lambda>m. m \<noteq> 0) (avail ! b ! a))) \<le> out ! b ! a ! j"
    if "j < length (avail ! b ! a)" "avail ! b ! a ! j \<noteq> 0" for j
    using pi_row_floor_masked[OF row(2) row(3) len assms(14) bin, of j] that
    by (simp add: o av)
  then show ?thesis using fw False by auto
qed

lemma forward_masked_train_eval:
  "forward net0 mac0 batch0 0 ''2m'' False
     = (Inr [[[1/2, 0, 1/2], [1, 0, 0]]], mac0\<lparr>hidden_states := Some [[[0]]]\<rparr>)"
  by (simp add: forward_def build_inputs_def get_task_repres_def mac0_def
      net0_def pi_logits_outputs_def masked_fill_def fill_row_def softmax_fl_masked3
      softmax_fl_masked3' view3_def upt_conv_Cons numeral_2_eq_2
      batch0_def slice_t_def zeros_like_def eye_def Let_def)

theorem forward_epsilon_floor_witness:
  "forward net0 mac0 batch0 0 ''2m'' False
     = (Inr [[[1/2, 0, 1/2], [1, 0, 0]]], mac0\<lparr>hidden_states := Some [[[0]]]\<rparr>)
   \<and> epsilon mac0 / 2 \<le> 1/2
   \<and> fst (forward net0 (mac0\<lparr>mask_before_softmax := Some False\<rparr>) batch0 0 ''2m'' False)
        = Inr [[[1/3, 1/3, 1/3], [1/3, 1/3, 1/3]]]
   \<and> epsilon mac0 / 3 \<le> 1/3"
proof -
  let ?mac1 = "mac0\<lparr>mask_before_softmax := Some False\<rparr>"
  have h: "task2n_agents mac0 ''2m'' = Some 2" "task2repre mac0 ''2m'' = Some [1, 0]"
    "agent_output_type mac0 = ''pi_logits''" "epsilon mac0 \<le> 1"
    by (simp_all add: mac0_def)
  have h1: "task2n_agents ?mac1 ''2m'' = Some 2" "task2repre ?mac1 ''2m'' = Some [1, 0]"
    "agent_output_type ?mac1 = ''pi_logits''" "epsilon ?mac1 \<le> 1"
    by (simp_all add: mac0_def)
  have b1: "build_inputs ?mac1 batch0 0 ''2m'' = Inr [[1/2, 0, 0, 0, 1, 0], [1/4, 0, 0, 0, 0, 1]]"
    by (simp add: build_inputs_def mac0_def batch0_def slice_t_def zeros_like_def eye_def
        upt_conv_Cons numeral_2_eq_2)
  have n1: "net0 (agent ?mac1) [[1/2, 0, 0, 0, 1, 0], [1/4, 0, 0, 0, 0, 1]] (hidden_states ?mac1)
              (concat (replicate (length [[1/2, 0, 0, 0, 1, 0], [1/4, 0, 0, 0, 0, 1::real]] div 2)
                 (replicate 2 [1, 0]))) ''2m''
            = ([[0, 0, 0], [0, 0, 0]], [[[0]]])"
    by (simp add: net0_def)
  have s: "length [[[1, 0, 1], [1, 0, 0::nat]]] = batch_size batch0"
    "\<forall>x \<in> set [[[1, 0, 1], [1, 0, 0::nat]]]. length x = 2"
    "length [[0, 0, 0], [0, 0, 0::real]] = batch_size batch0 * 2"
    "0 < batch_size batch0" "(0::nat) < 2"
    "length ([[0, 0, 0], [0, 0, 0::real]] ! (0 * 2 + 0)) = length ([[[1, 0, 1], [1, 0, 0::nat]]] ! 0 ! 0)"
    "set ([[[1, 0, 1], [1, 0, 0::nat]]] ! 0 ! 0) \<subseteq> {0, 1}"
    by (simp_all add: batch0_def)
  from forward_epsilon_floor[where net = net0,
      OF build_inputs_batch0 slice_avail_batch0 h(1,2) net0_batch0 h(3) s h(4)]
  obtain out c' where fw: "forward net0 mac0 batch0 0 ''2m'' False = (Inr out, c')"
    and f: "\<forall>j<3. [1, 0, 1::nat] ! j \<noteq> 0 \<longrightarrow> epsilon mac0 / 2 \<le> out ! 0 ! 0 ! j"
    by (auto simp: mac0_def)
  have "out = [[[1/2, 0, 1/2], [1, 0, 0]]]" using fw by (simp add: forward_masked_train_eval)
  then have a: "epsilon mac0 / 2 \<le> 1/2" using f[rule_format, of 0] by simp
  from forward_epsilon_floor[where net = net0,
      OF b1 slice_avail_batch0 h1(1,2) n1 h1(3) s h1(4)]
  obtain out' c'' where fw': "forward net0 ?mac1 batch0 0 ''2m'' False = (Inr out', c'')"
    and f': "\<forall>j<3. epsilon ?mac1 / 3 \<le> out' ! 0 ! 0 ! j"
    by auto
  have "out' = [[[1/3, 1/3, 1/3], [1/3, 1/3, 1/3]]]" using fw' by (simp add: forward_nomask_eval)
  then have b: "epsilon mac0 / 3 \<le> 1/3" using f'[rule_format, of 0] by simp
  show ?thesis using a b by (simp add: forward_masked_train_eval forward_nomask_eval)
qed

text \<open>
  C2 as stated fails: with \<open>mask_before_softmax\<close> off, in training mode with epsilon 1/2,
  the second agent has one available action (mask row [1, 0, 0]) and that action has
  probability 1/3, below epsilon / 1.
\<close>

theorem forward_unmasked_floor_counterexample:
  "fst (forward net0 (mac0\<lparr>mask_before_softmax := Some False\<rparr>) batch0 0 ''2m'' False)
     = Inr [[[1/3, 1/3, 1/3], [1/3, 1/3, 1/3]]]
   \<and> slice_t (avail_actions batch0) 0 = Inr [[[1, 0, 1], [1, 0, 0]]]
   \<and> epsilon (mac0\<lparr>mask_before_softmax := Some False\<rparr>)
        / real (length (filter (\<lambda>m. m \<noteq> 0) [1, 0, 0::nat])) = 1/2
   \<and> (1/3 :: real) < 1/2"
  by (simp add: forward_nomask_eval slice_avail_batch0) (simp add: mac0_def)

section \<open>The dynamic encoder/decoder path and the hidden state\<close>

text \<open>
  C9. \<open>task_encoder_forward\<close> leaves the recurrent hidden state of the controller
  unchanged, whether it returns its three predictions or raises: the controller after the
  call is the controller before it.
\<close>

theorem task_encoder_forward_keeps_hidden:
  "hidden_states (snd (task_encoder_forward enc dec c batch t task)) = hidden_states c
   \<and> snd (task_encoder_forward enc dec c batch t task) = c"
  by (simp add: task_encoder_forward_def split: sum.splits option.splits prod.splits)

text \<open>
  For contrast: \<open>forward\<close> does write the hidden state, with what the policy returns.
\<close>

lemma forward_sets_hidden:
  assumes "build_inputs c batch t task = Inr inputs"
    and "slice_t (avail_actions batch) t = Inr avail"
    and "task2n_agents c task = Some n" and "0 < n"
    and "task2repre c task = Some r"
    and "net (agent c) inputs (hidden_states c)
           (concat (replicate (length inputs div n) (replicate n r))) task = (logits, h)"
  shows "hidden_states (snd (forward net c batch t task test_mode)) = Some h"
  using forward_unfold[where net = net and test_mode = test_mode, OF assms] by simp

lemma forward_changes_hidden0:
  "hidden_states mac0 = None
   \<and> hidden_states (snd (forward net0 mac0 batch0 0 ''2m'' True)) = Some [[[0]]]"
proof -
  have "task2n_agents mac0 ''2m'' = Some 2" "task2repre mac0 ''2m'' = Some [1, 0]" "(0::nat) < 2"
    by (simp_all add: mac0_def)
  from forward_sets_hidden[where net = net0 and test_mode = True,
      OF build_inputs_batch0 slice_avail_batch0 this(1,3,2) net0_batch0]
  show ?thesis by (simp add: mac0_def)
qed

section \<open>The mixer: evaluation on the concrete inputs\<close>

lemma half_of_double: "x \<noteq> 0 \<Longrightarrow> x / (x + x) = 1 / (2::real)"
  by (simp add: field_simps)

lemma entity_embed0: "entity_embed mixer0 [0, 1, 1] = [[0], [1], [1]]"
  by (simp add: entity_embed_def mixer0_def dec0_def apply_linear_def dot_def)

lemma energy0: "energy mixer0 [[0], [1], [1]] = [[0, 0, 0], [ln 2, ln 2, ln 2], [ln 2, ln 2, ln 2]]"
  by (simp add: energy_def proj_query_def proj_key_def matmul_def mixer0_def apply_linear_def dot_def)

lemma attn_score0:
  "attn_score mixer0 [[0], [1], [1]] = [[1/5, 1/5, 1/5], [2/5, 2/5, 2/5], [2/5, 2/5, 2/5]]"
  by (simp add: attn_score_def energy0 softmax_dim0_def softmax_def)

lemma attn_out0: "attn_out mixer0 [[0], [1], [1]] = [4/5]"
  by (simp add: attn_out_def attn_score0 matmul_def dot_def mean_def)

lemma mix0: "mix mixer0 [x, y] [4/5] [[1], [1]] = [elu (x + y) * 2 + 1]"
  by (simp add: mix_def mixing_input_def mixer0_def apply_linear_def dot_def matmul_def mat_add_def
      mean_dim0_def mean_def V_net_def relu_def numeral_2_eq_2)

lemma mixer_forward0:
  "mixer_forward mixer0 [[[x, y]]] [[[0, 1, 1]]] [[[[1], [1]]]] = Inr [[[elu (x + y) * 2 + 1]]]"
  by (simp add: mixer_forward_def map3_def entity_embed0 attn_out0 mix0) (simp add: mixer0_def dec0_def)

lemma energy1: "energy mixer1 [[0], [1]] = [[0, 0], [ln 2, ln 2]]"
  by (simp add: energy_def proj_query_def proj_key_def matmul_def mixer1_def mixer0_def
      apply_linear_def dot_def)

lemma attn_score1: "attn_score mixer1 [[0], [1]] = [[1/3, 1/3], [2/3, 2/3]]"
  by (simp add: attn_score_def energy1 softmax_dim0_def softmax_def)

lemma attn_out1: "attn_out mixer1 [[0], [1]] = [2/3]"
  by (simp add: attn_out_def attn_score1 matmul_def dot_def mean_def)

lemma attn_out_as_specified1: "attn_out_as_specified mixer1 [[0], [1]] = [1/2]"
proof -
  have "matmul (proj_query mixer1 [[0], [1]]) (proj_key mixer1 [[0], [1]]) = [[0, 0], [ln 2, ln 2]]"
    using energy1 by (simp add: energy_def)
  moreover have "attn_embed_dim mixer1 = 4" by (simp add: mixer1_def)
  ultimately show ?thesis
    by (simp add: attn_out_as_specified_def softmax_def half_of_double matmul_def dot_def
        mean_dim0_def mean_def)
qed

section \<open>The mixer fails fast in the timestep mode\<close>

text \<open>
  C8. If the decomposer reports \<open>state_timestep_number\<close>, the mixer's \<open>forward\<close> raises
  for every input: it returns the exception and never a mixed value.
\<close>

theorem mixer_timestep_mode_raises:
  assumes "state_timestep_number (decomposer m)"
  shows "mixer_forward m agent_qs states task_repre_mu = Inl NotImplementedException"
  using assms by (simp add: mixer_forward_def)

theorem mixer_timestep_mode_raises_witness:
  "state_timestep_number (decomposer (mixer0\<lparr>decomposer := dec0\<lparr>state_timestep_number := True\<rparr>\<rparr>))
   \<and> mixer_forward (mixer0\<lparr>decomposer := dec0\<lparr>state_timestep_number := True\<rparr>\<rparr>)
        [[[1, 2]]] [[[0, 1, 1]]] [[[[1], [1]]]] = Inl NotImplementedException"
  using mixer_timestep_mode_raises
          [of "mixer0\<lparr>decomposer := dec0\<lparr>state_timestep_number := True\<rparr>\<rparr>"
              "[[[1, 2]]]" "[[[0, 1, 1]]]" "[[[[1], [1]]]]"]
  by simp

section \<open>Monotonicity of the mixer\<close>

lemma elu_mono: "x \<le> y \<Longrightarrow> elu x \<le> elu y"
proof -
  assume xy: "x \<le> y"
  have "exp x - 1 \<le> y" if "x \<le> 0" "0 < y"
  proof -
    have "exp x \<le> 1" using that(1) by simp
    with that(2) show ?thesis by linarith
  qed
  then show ?thesis using xy by (auto simp: elu_def)
qed

lemma dot_mono_left:
  "list_all2 (\<le>) xs ys \<Longrightarrow> \<forall>w \<in> set ws. 0 \<le> w \<Longrightarrow> dot xs ws \<le> dot ys ws"
proof (induction xs ys arbitrary: ws rule: list_all2_induct)
  case Nil then show ?case by (simp add: dot_def)
next
  case (Cons x xs y ys)
  show ?case
  proof (cases ws)
    case Nil then show ?thesis by (simp add: dot_def)
  next
    case (Cons w ws')
    have "dot xs ws' \<le> dot ys ws'" using Cons.IH[of ws'] Cons.prems \<open>ws = w # ws'\<close> by simp
    moreover have "x * w \<le> y * w" using Cons.hyps(1) Cons.prems \<open>ws = w # ws'\<close>
      by (simp add: mult_right_mono)
    ultimately show ?thesis using \<open>ws = w # ws'\<close> by (simp add: dot_def)
  qed
qed

lemma transpose_entries:
  assumes "col \<in> set (transpose M)" "x \<in> set col"
  shows "\<exists>row \<in> set M. x \<in> set row"
proof -
  obtain i where i: "i < length (transpose M)" and c: "col = transpose M ! i"
    using assms(1) by (auto simp: in_set_conv_nth)
  have "col = map (\<lambda>r. r ! i) (filter (\<lambda>r. i < length r) M)"
    using nth_transpose[OF i] c by simp
  then obtain r where "r \<in> set M" "i < length r" "x = r ! i"
    using assms(2) by auto
  then have "r \<in> set M" "x \<in> set r" by simp_all
  then show ?thesis by (rule rev_bexI)
qed

lemma nonneg_transpose:
  assumes "nonneg_mat M"
  shows "nonneg_mat (transpose M)"
  unfolding nonneg_mat_def list_all_iff
proof (intro ballI)
  fix col x
  assume cx: "col \<in> set (transpose M)" "x \<in> set col"
  obtain row where row: "row \<in> set M" "x \<in> set row"
    using transpose_entries[OF cx] by (elim bexE)
  have "\<forall>r \<in> set M. \<forall>e \<in> set r. 0 \<le> e"
    using assms unfolding nonneg_mat_def list_all_iff .
  then have "\<forall>e \<in> set row. 0 \<le> e" using row(1) by (rule bspec)
  then show "0 \<le> x" using row(2) by (rule bspec)
qed

lemma matmul_mono_left:
  assumes "list_all2 (list_all2 (\<le>)) A A'" "nonneg_mat B"
  shows "list_all2 (list_all2 (\<le>)) (matmul A B) (matmul A' B)"
proof -
  have nn: "\<forall>col \<in> set (transpose B). \<forall>w \<in> set col. 0 \<le> w"
    using nonneg_transpose[OF assms(2)] by (simp add: nonneg_mat_def list_all_iff)
  have "list_all2 (\<le>) (map (dot r) (transpose B)) (map (dot r') (transpose B))"
    if rr: "list_all2 (\<le>) r r'" for r r'
  proof -
    have "dot r col \<le> dot r' col" if "col \<in> set (transpose B)" for col
      by (intro dot_mono_left[OF rr] bspec[OF nn that])
    then show ?thesis
      by (simp add: list_all2_map1 list_all2_map2 list_all2_same)
  qed
  then have "list_all2 (\<lambda>r r'. list_all2 (\<le>) (map (dot r) (transpose B)) (map (dot r') (transpose B))) A A'"
    using assms(1) by (rule list_all2_mono[rotated])
  then show ?thesis
    by (simp add: matmul_def list_all2_map1 list_all2_map2)
qed

lemma mat_add_mono_left:
  "list_all2 (list_all2 (\<le>)) A A' \<Longrightarrow> list_all2 (list_all2 (\<le>)) (mat_add A B) (mat_add A' (B::mat))"
proof -
  assume h: "list_all2 (list_all2 (\<le>)) A A'"
  have "list_all2 (\<le>) (map2 (+) r b) (map2 (+) r' b)" if "list_all2 (\<le>) r r'" for r r' and b :: vec
    using that by (simp add: list_all2_conv_all_nth)
  then show ?thesis using h
    by (simp add: mat_add_def list_all2_conv_all_nth)
qed

lemma map_elu_mono:
  "list_all2 (list_all2 (\<le>)) A A' \<Longrightarrow> list_all2 (list_all2 (\<le>)) (map (map elu) A) (map (map elu) A')"
  by (simp add: list_all2_conv_all_nth elu_mono)

lemma concat_mono:
  "list_all2 (list_all2 (\<le>)) A A' \<Longrightarrow> list_all2 (\<le>) (concat A) (concat (A'::mat))"
  by (induction A A' rule: list_all2_induct) (simp_all add: list_all2_appendI)

lemma mean_nonneg: "list_all (\<lambda>x. 0 \<le> x) xs \<Longrightarrow> 0 \<le> mean xs"
  by (simp add: mean_def list_all_iff sum_list_nonneg)

lemma mean_dim0_nonneg: "nonneg_mat M \<Longrightarrow> list_all (\<lambda>x. 0 \<le> x) (mean_dim0 M)"
  using nonneg_transpose[of M] by (simp add: mean_dim0_def nonneg_mat_def list_all_iff mean_nonneg)

lemma abs_rows_nonneg: "nonneg_mat (map (\<lambda>x. map abs (f x)) (inp::'a list))"
  by (simp add: nonneg_mat_def list_all_iff)

lemma column_nonneg: "list_all (\<lambda>x. 0 \<le> x) w \<Longrightarrow> nonneg_mat (map (\<lambda>x. [x]) w)"
  by (simp add: nonneg_mat_def list_all_iff)

lemma mix_mono:
  assumes "list_all2 (\<le>) qs qs'"
  shows "list_all2 (\<le>) (mix m qs ctx tr) (mix m qs' ctx tr)"
proof -
  let ?inp = "mixing_input m ctx tr"
  let ?w1 = "map (\<lambda>x. map abs (apply_linear (hyper_w_1 m) x)) ?inp"
  let ?b1 = "mean_dim0 (map (apply_linear (hyper_b_1 m)) ?inp)"
  let ?wf = "mean_dim0 (map (\<lambda>x. map abs (apply_linear (hyper_w_final m) x)) ?inp)"
  let ?h = "\<lambda>q. map (map elu) (mat_add (matmul [q] ?w1) [?b1])"
  have q: "list_all2 (list_all2 (\<le>)) [qs] [qs']" using assms by simp
  have h: "list_all2 (list_all2 (\<le>)) (?h qs) (?h qs')"
    by (intro map_elu_mono mat_add_mono_left matmul_mono_left q abs_rows_nonneg)
  have "nonneg_mat (map (\<lambda>w. [w]) ?wf)"
    by (intro column_nonneg mean_dim0_nonneg abs_rows_nonneg)
  then have "list_all2 (list_all2 (\<le>))
               (mat_add (matmul (?h qs) (map (\<lambda>w. [w]) ?wf)) [mean_dim0 (map (V_net (V m)) ?inp)])
               (mat_add (matmul (?h qs') (map (\<lambda>w. [w]) ?wf)) [mean_dim0 (map (V_net (V m)) ?inp)])"
    by (intro mat_add_mono_left matmul_mono_left h)
  then show ?thesis
    unfolding mix_def Let_def by (rule concat_mono)
qed

lemma map3_length: "length (map3 f xs ys zs) = min (length xs) (min (length ys) (length zs))"
  by (simp add: map3_def)

lemma map3_nth:
  "i < length xs \<Longrightarrow> i < length ys \<Longrightarrow> i < length zs
   \<Longrightarrow> map3 f xs ys zs ! i = f (xs ! i) (ys ! i) (zs ! i)"
  by (simp add: map3_def)

lemma map3_rel:
  assumes "list_all2 R xs xs'"
    and "\<And>x x' y z. R x x' \<Longrightarrow> Q (f x y z) (f x' y z)"
  shows "list_all2 Q (map3 f xs ys zs) (map3 f xs' ys zs)"
proof -
  have len: "length xs = length xs'" using assms(1) by (rule list_all2_lengthD)
  show ?thesis
  proof (rule list_all2_all_nthI)
    show "length (map3 f xs ys zs) = length (map3 f xs' ys zs)"
      using len by (simp add: map3_length)
  next
    fix i assume "i < length (map3 f xs ys zs)"
    then have i: "i < length xs" "i < length ys" "i < length zs" "i < length xs'"
      using len by (simp_all add: map3_length)
    have "R (xs ! i) (xs' ! i)" using assms(1) i(1) by (rule list_all2_nthD)
    then show "Q (map3 f xs ys zs ! i) (map3 f xs' ys zs ! i)"
      using i assms(2) by (simp add: map3_nth)
  qed
qed

lemma mixer_forward_mono:
  assumes "\<not> state_timestep_number (decomposer m)"
    and "list_all2 (list_all2 (list_all2 (\<le>))) agent_qs agent_qs'"
  shows "\<exists>q q'. mixer_forward m agent_qs states tr = Inr q
           \<and> mixer_forward m agent_qs' states tr = Inr q'
           \<and> list_all2 (list_all2 (list_all2 (\<le>))) q q'"
proof -
  let ?ctx = "map (map (\<lambda>st. attn_out m (entity_embed m st))) states"
  have "list_all2 (list_all2 (list_all2 (\<le>)))
          (map3 (map3 (mix m)) agent_qs ?ctx tr) (map3 (map3 (mix m)) agent_qs' ?ctx tr)"
    using assms(2)
  proof (rule map3_rel)
    fix x x' :: "vec list" and y :: "vec list" and z :: "mat list"
    assume "list_all2 (list_all2 (\<le>)) x x'"
    then show "list_all2 (list_all2 (\<le>)) (map3 (mix m) x y z) (map3 (mix m) x' y z)"
      by (rule map3_rel) (rule mix_mono)
  qed
  then show ?thesis using assms(1) by (simp add: mixer_forward_def)
qed

lemma list_all2_update_le:
  "a < length xs \<Longrightarrow> xs ! a \<le> v \<Longrightarrow> list_all2 (\<le>) xs (xs[a := v::real])"
  by (simp add: list_all2_conv_all_nth nth_list_update)

lemma list_all2_update_rel:
  "(\<And>x. R x x) \<Longrightarrow> i < length xs \<Longrightarrow> R (xs ! i) y \<Longrightarrow> list_all2 R xs (xs[i := y])"
  by (simp add: list_all2_conv_all_nth nth_list_update)

text \<open>
  C3. For fixed states, task representations and weights, raising one per-agent value
  (agent \<open>a\<close> of batch element \<open>b\<close> at time \<open>t\<close>) and keeping all others never lowers
  any entry of \<open>q_tot\<close>: the mixer returns on both inputs, and the result on the raised
  input is entrywise at least the result on the original one.
\<close>

theorem mixer_monotone:
  assumes "\<not> state_timestep_number (decomposer m)"
    and "b < length agent_qs" and "t < length (agent_qs ! b)" and "a < length (agent_qs ! b ! t)"
    and "agent_qs ! b ! t ! a \<le> v"
  shows "\<exists>q q'. mixer_forward m agent_qs states task_repre_mu = Inr q
           \<and> mixer_forward m (agent_qs[b := (agent_qs ! b)[t := (agent_qs ! b ! t)[a := v]]])
                 states task_repre_mu = Inr q'
           \<and> list_all2 (list_all2 (list_all2 (\<le>))) q q'"
proof -
  have r1: "list_all2 (\<le>) x x" for x :: vec by (simp add: list_all2_same)
  have r2: "list_all2 (list_all2 (\<le>)) x x" for x :: mat by (simp add: list_all2_same)
  have "list_all2 (\<le>) (agent_qs ! b ! t) ((agent_qs ! b ! t)[a := v])"
    using assms(4,5) by (rule list_all2_update_le)
  then have "list_all2 (list_all2 (\<le>)) (agent_qs ! b) ((agent_qs ! b)[t := (agent_qs ! b ! t)[a := v]])"
    by (rule list_all2_update_rel[where R = "list_all2 (\<le>)", OF r1 assms(3)])
  then have "list_all2 (list_all2 (list_all2 (\<le>))) agent_qs
               (agent_qs[b := (agent_qs ! b)[t := (agent_qs ! b ! t)[a := v]]])"
    by (rule list_all2_update_rel[where R = "list_all2 (list_all2 (\<le>))", OF r2 assms(2)])
  with assms(1) show ?thesis by (rule mixer_forward_mono)
qed

theorem mixer_monotone_witness:
  "\<not> state_timestep_number (decomposer mixer0)
   \<and> mixer_forward mixer0 [[[1, 2]]] [[[0, 1, 1]]] [[[[1], [1]]]] = Inr [[[7]]]
   \<and> mixer_forward mixer0 ([[[1, 2]]][0 := ([[[1, 2]]] ! 0)[0 := ([[[1, 2]]] ! 0 ! 0)[1 := 3]]])
        [[[0, 1, 1]]] [[[[1], [1]]]] = Inr [[[9]]]
   \<and> list_all2 (list_all2 (list_all2 (\<le>))) [[[7]]] [[[9::real]]]"
proof -
  have h: "\<not> state_timestep_number (decomposer mixer0)" by (simp add: mixer0_def dec0_def)
  have e1: "mixer_forward mixer0 [[[1, 2]]] [[[0, 1, 1]]] [[[[1], [1]]]] = Inr [[[7]]]"
    by (simp add: mixer_forward0 elu_def)
  have e2: "mixer_forward mixer0 ([[[1, 2]]][0 := ([[[1, 2]]] ! 0)[0 := ([[[1, 2]]] ! 0 ! 0)[1 := 3]]])
        [[[0, 1, 1]]] [[[[1], [1]]]] = Inr [[[9]]]"
    by (simp add: mixer_forward0 elu_def)
  from mixer_monotone[of mixer0 0 "[[[1, 2]]]" 0 1 3 "[[[0, 1, 1]]]" "[[[[1], [1]]]]", OF h]
  have "list_all2 (list_all2 (list_all2 (\<le>))) [[[7]]] [[[9::real]]]"
    unfolding e1 e2 by simp
  with h e1 e2 show ?thesis by (intro conjI)
qed

section \<open>The attention step\<close>

lemma rect_tabulate2:
  assumes "length M = n" "\<forall>r \<in> set M. length r = k"
  shows "M = tabulate2 n k (\<lambda>i j. M ! i ! j)"
proof (rule nth_equalityI)
  show "length M = length (tabulate2 n k (\<lambda>i j. M ! i ! j))"
    using assms(1) by (simp add: tabulate2_def)
next
  fix i assume i: "i < length M"
  then have "length (M ! i) = k" using assms(2) by simp
  then have "M ! i = map (\<lambda>j. M ! i ! j) [0..<k]"
    by (metis map_nth)
  then show "M ! i = tabulate2 n k (\<lambda>i j. M ! i ! j) ! i"
    using i assms(1) by (simp add: tabulate2_def)
qed

lemma transpose_tabulate2:
  assumes "0 < n"
  shows "transpose (tabulate2 n k f) = tabulate2 k n (\<lambda>i j. f j i)"
proof -
  have "transpose (tabulate2 n k f)
          = map (\<lambda>i. map (\<lambda>j. tabulate2 n k f ! j ! i) [0..<length (tabulate2 n k f)]) [0..<k]"
    using assms by (intro transpose_rectangle) (simp_all add: tabulate2_def)
  also have "\<dots> = tabulate2 k n (\<lambda>i j. f j i)"
    by (simp add: tabulate2_def)
  finally show ?thesis .
qed

lemma dot_tabulated:
  "dot (map f [0..<n]) (map g [0..<n]) = (\<Sum>i = 0..<n. f i * g i)"
proof -
  have "map2 (*) (map f [0..<n]) (map g [0..<n]) = map (\<lambda>i. f i * g i) [0..<n]"
    by (simp add: zip_map_map zip_same_conv_map)
  then show ?thesis
    by (simp add: dot_def interv_sum_list_conv_sum_set_nat)
qed

lemma matmul_cols:
  assumes "0 < k"
  shows "matmul A (tabulate2 k n g) = map (\<lambda>row. map (\<lambda>j. dot row (map (\<lambda>a. g a j) [0..<k])) [0..<n]) A"
  unfolding matmul_def transpose_tabulate2[OF assms]
  by (simp add: tabulate2_def comp_def)

lemma softmax_tabulated:
  "softmax (map f [0..<n]) = map (\<lambda>i. exp (f i) / (\<Sum>i' = 0..<n. exp (f i'))) [0..<n]"
  by (simp add: softmax_def comp_def interv_sum_list_conv_sum_set_nat)

lemma softmax_dim0_tabulate2:
  assumes "0 < n"
  shows "softmax_dim0 (tabulate2 n n f)
           = tabulate2 n n (\<lambda>i j. exp (f i j) / (\<Sum>i' = 0..<n. exp (f i' j)))"
proof -
  have "map softmax (tabulate2 n n (\<lambda>i j. f j i))
          = tabulate2 n n (\<lambda>j i. exp (f i j) / (\<Sum>i' = 0..<n. exp (f i' j)))"
    by (simp add: tabulate2_def softmax_tabulated)
  then show ?thesis
    unfolding softmax_dim0_def by (simp only: transpose_tabulate2[OF assms])
qed

lemma mean_tabulated: "mean (map f [0..<n]) = (\<Sum>j = 0..<n. f j) / real n"
  by (simp add: mean_def interv_sum_list_conv_sum_set_nat)

lemma map_rows_tabulated: "map f e = map (\<lambda>i. f (e ! i)) [0..<length e]"
  by (simp add: map_equality_iff)

lemma apply_linear_length:
  "length (apply_linear l x) = min (length (weight l)) (length (bias l))"
  by (simp add: apply_linear_def)

lemma energy_tabulated:
  assumes "e \<noteq> []" "weight (key m) \<noteq> []" "bias (key m) \<noteq> []"
  shows "energy m e = tabulate2 (length e) (length e)
           (\<lambda>i j. dot (apply_linear (query m) (e ! i)) (apply_linear (key m) (e ! j)))"
proof -
  let ?n = "length e"
  let ?k = "min (length (weight (key m))) (length (bias (key m)))"
  let ?K = "\<lambda>j. apply_linear (key m) (e ! j)"
  have n: "0 < ?n" and k: "0 < ?k" using assms by simp_all
  have "map (apply_linear (key m)) e = tabulate2 ?n ?k (\<lambda>j a. map (apply_linear (key m)) e ! j ! a)"
    by (intro rect_tabulate2) (simp_all add: apply_linear_length)
  also have "\<dots> = tabulate2 ?n ?k (\<lambda>j a. ?K j ! a)"
    by (simp add: tabulate2_def)
  finally have "proj_key m e = tabulate2 ?k ?n (\<lambda>a j. ?K j ! a)"
    by (simp add: proj_key_def transpose_tabulate2[OF n])
  then have "energy m e
      = map (\<lambda>row. map (\<lambda>j. dot row (map (\<lambda>a. ?K j ! a) [0..<?k])) [0..<?n]) (proj_query m e)"
    by (simp add: energy_def matmul_cols[OF k])
  moreover have "map (\<lambda>a. ?K j ! a) [0..<?k] = ?K j" for j
    using map_nth[of "?K j"] by (simp add: apply_linear_length)
  ultimately have "energy m e = map (\<lambda>row. map (\<lambda>j. dot row (?K j)) [0..<?n]) (proj_query m e)"
    by simp
  then show ?thesis
    by (simp add: proj_query_def tabulate2_def comp_def map_rows_tabulated[of _ e])
qed

lemma attn_out_tabulated:
  assumes "e \<noteq> []" "\<forall>x \<in> set e. length x = d"
    and "attn_score m e = tabulate2 (length e) (length e) S"
  shows "attn_out m e =
           map (\<lambda>k. (\<Sum>j = 0..<length e. \<Sum>i = 0..<length e. S i j * e ! i ! k) / real (length e)) [0..<d]"
proof -
  let ?n = "length e"
  have n: "0 < ?n" using assms(1) by simp
  have "e = tabulate2 ?n d (\<lambda>i k. e ! i ! k)"
    using assms(2) by (intro rect_tabulate2) simp_all
  then have te: "transpose e = tabulate2 d ?n (\<lambda>k i. e ! i ! k)"
    using transpose_tabulate2[OF n, of d "\<lambda>i k. e ! i ! k"] by simp
  have "matmul (transpose e) (attn_score m e)
      = map (\<lambda>row. map (\<lambda>j. dot row (map (\<lambda>i. S i j) [0..<?n])) [0..<?n]) (transpose e)"
    by (simp only: assms(3) matmul_cols[OF n])
  then have "matmul (transpose e) (attn_score m e)
      = map (\<lambda>k. map (\<lambda>j. dot (map (\<lambda>i. e ! i ! k) [0..<?n]) (map (\<lambda>i. S i j) [0..<?n])) [0..<?n]) [0..<d]"
    by (simp add: te tabulate2_def comp_def)
  then show ?thesis
    by (simp add: attn_out_def dot_tabulated mean_tabulated comp_def mult.commute)
qed

text \<open>
  C5, as the code has it. For a non-empty set of entity embeddings of one dimension
  \<open>d\<close>, the scores are the plain (unscaled) dot products of the query projection of
  entity \<open>i\<close> and the key projection of entity \<open>j\<close>; the softmax is over the first axis
  of the scores, the query entity \<open>i\<close>, so that the weights of every key entity \<open>j\<close>
  sum to 1; for every \<open>j\<close> the weights combine the unprojected embeddings, and the
  single context vector is the unweighted mean of these combinations over \<open>j\<close>.
\<close>

theorem attention_formula:
  assumes "e \<noteq> []" and "\<forall>x \<in> set e. length x = d"
    and "weight (key m) \<noteq> []" and "bias (key m) \<noteq> []"
  shows "(let n = length e;
              E = (\<lambda>i j. dot (apply_linear (query m) (e ! i)) (apply_linear (key m) (e ! j)));
              S = (\<lambda>i j. exp (E i j) / (\<Sum>i' = 0..<n. exp (E i' j)))
          in energy m e = tabulate2 n n E
           \<and> attn_score m e = tabulate2 n n S
           \<and> attn_out m e = map (\<lambda>k. (\<Sum>j = 0..<n. \<Sum>i = 0..<n. S i j * e ! i ! k) / real n) [0..<d])"
proof -
  let ?n = "length e"
  let ?E = "\<lambda>i j. dot (apply_linear (query m) (e ! i)) (apply_linear (key m) (e ! j))"
  let ?S = "\<lambda>i j. exp (?E i j) / (\<Sum>i' = 0..<?n. exp (?E i' j))"
  have n: "0 < ?n" using assms(1) by simp
  have en: "energy m e = tabulate2 ?n ?n ?E"
    using assms(1,3,4) by (rule energy_tabulated)
  have sc: "attn_score m e = tabulate2 ?n ?n ?S"
    unfolding attn_score_def en by (rule softmax_dim0_tabulate2[OF n])
  have out: "attn_out m e
      = map (\<lambda>k. (\<Sum>j = 0..<?n. \<Sum>i = 0..<?n. ?S i j * e ! i ! k) / real ?n) [0..<d]"
    using assms(1,2) sc by (rule attn_out_tabulated)
  show ?thesis unfolding Let_def using en sc out by (intro conjI)
qed

theorem attention_formula_witness:
  "(let n = length [[0], [1::real]];
        E = (\<lambda>i j. dot (apply_linear (query mixer1) ([[0], [1]] ! i))
                        (apply_linear (key mixer1) ([[0], [1]] ! j)));
        S = (\<lambda>i j. exp (E i j) / (\<Sum>i' = 0..<n. exp (E i' j)))
    in energy mixer1 [[0], [1]] = tabulate2 n n E
     \<and> attn_score mixer1 [[0], [1]] = tabulate2 n n S
     \<and> attn_out mixer1 [[0], [1]]
         = map (\<lambda>k. (\<Sum>j = 0..<n. \<Sum>i = 0..<n. S i j * [[0], [1]] ! i ! k) / real n) [0..<1])"
  by (rule attention_formula) (simp_all add: mixer1_def mixer0_def)

text \<open>
  C5 as stated fails. On two entities with embeddings 0 and 1 and an attention of
  dimension 4, the scores are 0 and \<open>ln 2\<close>, not scaled; the weights [1/3, 1/3] of the
  first query entity do not sum to 1 over the key axis (they do over the query axis); and
  the context is 2/3, where scaled scores with a softmax over the key axis give 1/2.
\<close>

theorem attention_counterexample:
  "attn_out mixer1 [[0], [1]] = [2/3]
   \<and> attn_out_as_specified mixer1 [[0], [1]] = [1/2]
   \<and> attn_embed_dim mixer1 = 4
   \<and> energy mixer1 [[0], [1]] = [[0, 0], [ln 2, ln 2]]
   \<and> attn_score mixer1 [[0], [1]] = [[1/3, 1/3], [2/3, 2/3]]"
  by (simp add: attn_out1 attn_out_as_specified1 energy1 attn_score1) (simp add: mixer1_def)

end
